theory Spec2Isabelle
  imports Main
begin

section \<open>Library catalogue: checkout and return\<close>

text \<open>
  A shallow embedding of \<^verbatim>\<open>check.py\<close> (classes \<^verbatim>\<open>Checkout\<close> and
  \<^verbatim>\<open>CheckoutManager\<close>) and of the slices of \<^verbatim>\<open>book.py\<close> and \<^verbatim>\<open>user.py\<close>
  they touch. Python objects that are mutated in place become records that are
  replaced in the list holding them; \<^verbatim>\<open>datetime.now()\<close> becomes a parameter
  \<open>now\<close>; a raised exception becomes a value of type \<open>error\<close>, returned
  together with the state the exception leaves behind.
\<close>

subsection \<open>datetime\<close>

text \<open>
  A naive \<^verbatim>\<open>datetime\<close> as its seven fields. The program creates its timestamps with
  \<^verbatim>\<open>datetime.now()\<close> (naive) and reads back only what it wrote, so time zones are
  not modelled. A Python \<^verbatim>\<open>datetime\<close> always satisfies \<open>valid_datetime\<close>
  (the constructor raises otherwise), and is always truthy.
\<close>

record datetime =
  year :: nat
  month :: nat
  day :: nat
  hour :: nat
  minute :: nat
  second :: nat
  microsecond :: nat

definition is_leap :: "nat \<Rightarrow> bool" where
  "is_leap y = (y mod 4 = 0 \<and> (y mod 100 \<noteq> 0 \<or> y mod 400 = 0))"

definition days_in_month :: "nat \<Rightarrow> nat \<Rightarrow> nat" where
  "days_in_month y m =
     (if m = 2 then (if is_leap y then 29 else 28)
      else if m = 4 \<or> m = 6 \<or> m = 9 \<or> m = 11 then 30 else 31)"

definition valid_datetime :: "datetime \<Rightarrow> bool" where
  "valid_datetime d =
     (1 \<le> year d \<and> year d \<le> 9999 \<and> 1 \<le> month d \<and> month d \<le> 12 \<and>
      1 \<le> day d \<and> day d \<le> days_in_month (year d) (month d) \<and>
      hour d < 24 \<and> minute d < 60 \<and> second d < 60 \<and> microsecond d < 1000000)"

text \<open>
  \<^verbatim>\<open>d + timedelta(days=n)\<close>: the calendar day is advanced \<open>n\<close> times, the time of
  day is kept. Past 9999-12-31 Python raises \<^verbatim>\<open>OverflowError\<close>: the result is
  \<open>None\<close>.
\<close>

definition next_day :: "datetime \<Rightarrow> datetime option" where
  "next_day d =
     (if day d < days_in_month (year d) (month d) then Some (d\<lparr>day := day d + 1\<rparr>)
      else if month d < 12 then Some (d\<lparr>month := month d + 1, day := 1\<rparr>)
      else if year d < 9999 then Some (d\<lparr>year := year d + 1, month := 1, day := 1\<rparr>)
      else None)"

fun add_days :: "nat \<Rightarrow> datetime \<Rightarrow> datetime option" where
  "add_days 0 d = Some d"
| "add_days (Suc n) d = (case next_day d of None \<Rightarrow> None | Some d' \<Rightarrow> add_days n d')"

text \<open>
  \<^verbatim>\<open>datetime.isoformat()\<close> of a naive datetime:
  \<^verbatim>\<open>"%04d-%02d-%02dT%02d:%02d:%02d"\<close>, followed by \<^verbatim>\<open>".%06d"\<close> when the
  microsecond is not zero. \<open>pad k n\<close> writes the \<open>k\<close> low decimal digits of \<open>n\<close>,
  which for the fields of a valid datetime is the zero-padded number.
\<close>

definition digit_char :: "nat \<Rightarrow> char" where
  "digit_char n = ''0123456789'' ! (n mod 10)"

definition digit_val :: "char \<Rightarrow> nat option" where
  "digit_val c = map_of (zip ''0123456789'' [0, 1, 2, 3, 4, 5, 6, 7, 8, 9]) c"

fun pad :: "nat \<Rightarrow> nat \<Rightarrow> string" where
  "pad 0 n = []"
| "pad (Suc k) n = pad k (n div 10) @ [digit_char n]"

fun digits_val :: "string \<Rightarrow> nat \<Rightarrow> nat option" where
  "digits_val [] acc = Some acc"
| "digits_val (c # cs) acc =
     (case digit_val c of None \<Rightarrow> None | Some v \<Rightarrow> digits_val cs (10 * acc + v))"

definition isoformat :: "datetime \<Rightarrow> string" where
  "isoformat d =
     pad 4 (year d) @ ''-'' @ pad 2 (month d) @ ''-'' @ pad 2 (day d) @ ''T'' @
     pad 2 (hour d) @ '':'' @ pad 2 (minute d) @ '':'' @ pad 2 (second d) @
     (if microsecond d \<noteq> 0 then ''.'' @ pad 6 (microsecond d) else [])"

text \<open>
  \<^verbatim>\<open>datetime.fromisoformat\<close>, restricted to the two shapes \<open>isoformat\<close> writes
  (\<^verbatim>\<open>YYYY-MM-DD?HH:MM:SS\<close> and the same with \<^verbatim>\<open>.ffffff\<close>; the separator at
  position 10 may be any character). The fields are range-checked as the
  \<^verbatim>\<open>datetime\<close> constructor does. \<open>None\<close> stands for \<^verbatim>\<open>ValueError\<close>; the
  shorter and the time-zone forms that Python also accepts are outside the model
  and give \<open>None\<close> too.
\<close>

definition fromisoformat :: "string \<Rightarrow> datetime option" where
  "fromisoformat s =
     (if length s \<noteq> 19 \<and> length s \<noteq> 26 then None
      else if s ! 4 \<noteq> CHR ''-'' \<or> s ! 7 \<noteq> CHR ''-'' \<or> s ! 13 \<noteq> CHR '':'' \<or> s ! 16 \<noteq> CHR '':''
        then None
      else if length s = 26 \<and> s ! 19 \<noteq> CHR ''.'' then None
      else
        (case (digits_val (take 4 s) 0, digits_val (take 2 (drop 5 s)) 0,
               digits_val (take 2 (drop 8 s)) 0, digits_val (take 2 (drop 11 s)) 0,
               digits_val (take 2 (drop 14 s)) 0, digits_val (take 2 (drop 17 s)) 0,
               digits_val (drop 20 s) 0) of
           (Some y, Some mo, Some d, Some h, Some mi, Some se, Some us) \<Rightarrow>
             (let dt = \<lparr>year = y, month = mo, day = d, hour = h, minute = mi,
                        second = se, microsecond = us\<rparr>
              in if valid_datetime dt then Some dt else None)
         | _ \<Rightarrow> None))"

subsection \<open>Records and exceptions\<close>

text \<open>
  The dictionaries written by \<^verbatim>\<open>to_dict\<close> and read by \<^verbatim>\<open>from_dict\<close>: an
  association list from field name to a JSON value, looked up with \<open>map_of\<close>
  (\<^verbatim>\<open>data[key]\<close>).
\<close>

datatype jval = JStr string | JBool bool | JNull | JList "string list"

type_synonym pydict = "(string \<times> jval) list"

text \<open>
  The exceptions of the modelled code. \<open>ValueError\<close> carries the message.
  \<open>IllTyped k\<close> is not a Python exception: it marks a record whose field \<open>k\<close>
  holds a value outside the field's annotated type, where Python would store the
  value as it is; such records are outside the model.
\<close>

datatype error = ValueError string | KeyError string | TypeError | OverflowError
  | IllTyped string

text \<open>Sequencing of calls that may raise: the first exception ends the evaluation.\<close>

definition bind_err :: "error + 'a \<Rightarrow> ('a \<Rightarrow> error + 'b) \<Rightarrow> error + 'b" where
  "bind_err r f = (case r of Inl e \<Rightarrow> Inl e | Inr v \<Rightarrow> f v)"

definition get_str :: "pydict \<Rightarrow> string \<Rightarrow> error + string" where
  "get_str data k =
     (case map_of data k of
        None \<Rightarrow> Inl (KeyError k)
      | Some (JStr v) \<Rightarrow> Inr v
      | Some _ \<Rightarrow> Inl (IllTyped k))"

subsection \<open>book.py: Book\<close>

record book =
  title :: string
  author :: string
  item_id :: string
  is_available :: bool

definition Book_to_dict :: "book \<Rightarrow> pydict" where
  "Book_to_dict b =
     [(''title'', JStr (title b)), (''author'', JStr (author b)),
      (''isbn'', JStr (item_id b)), (''is_available'', JBool (is_available b))]"

definition Book_from_dict :: "pydict \<Rightarrow> error + book" where
  "Book_from_dict data =
     bind_err (get_str data ''title'') (\<lambda>t.
     bind_err (get_str data ''author'') (\<lambda>a.
     bind_err (get_str data ''isbn'') (\<lambda>i.
       (case map_of data ''is_available'' of
          None \<Rightarrow> Inl (KeyError ''is_available'')
        | Some (JBool v) \<Rightarrow> Inr \<lparr>title = t, author = a, item_id = i, is_available = v\<rparr>
        | Some _ \<Rightarrow> Inl (IllTyped ''is_available'')))))"

text \<open>\<^verbatim>\<open>next((book for book in self.books if book.item_id == isbn), None)\<close>\<close>

definition get_book_by_isbn :: "book list \<Rightarrow> string \<Rightarrow> book option" where
  "get_book_by_isbn bs isbn = find (\<lambda>b. item_id b = isbn) bs"

subsection \<open>user.py: User\<close>

record user =
  name :: string
  user_id :: string
  borrowed_items :: "string list"

definition borrow_item :: "user \<Rightarrow> string \<Rightarrow> user" where
  "borrow_item u i =
     (if i \<notin> set (borrowed_items u) then u\<lparr>borrowed_items := borrowed_items u @ [i]\<rparr> else u)"

text \<open>\<^verbatim>\<open>list.remove\<close> deletes the first occurrence: \<open>remove1\<close>.\<close>

definition User_return_item :: "user \<Rightarrow> string \<Rightarrow> user" where
  "User_return_item u i =
     (if i \<in> set (borrowed_items u) then u\<lparr>borrowed_items := remove1 i (borrowed_items u)\<rparr>
      else u)"

definition User_to_dict :: "user \<Rightarrow> pydict" where
  "User_to_dict u =
     [(''name'', JStr (name u)), (''user_id'', JStr (user_id u)),
      (''borrowed_items'', JList (borrowed_items u))]"

definition User_from_dict :: "pydict \<Rightarrow> error + user" where
  "User_from_dict data =
     bind_err (get_str data ''name'') (\<lambda>n.
     bind_err (get_str data ''user_id'') (\<lambda>i.
       (case map_of data ''borrowed_items'' of
          None \<Rightarrow> Inl (KeyError ''borrowed_items'')
        | Some (JList xs) \<Rightarrow> Inr \<lparr>name = n, user_id = i, borrowed_items = xs\<rparr>
        | Some _ \<Rightarrow> Inl (IllTyped ''borrowed_items''))))"

definition get_user_by_id :: "user list \<Rightarrow> string \<Rightarrow> user option" where
  "get_user_by_id us uid = find (\<lambda>u. user_id u = uid) us"

subsection \<open>check.py: Checkout\<close>

text \<open>
  The fields \<^verbatim>\<open>user_id\<close> and \<^verbatim>\<open>item_id\<close> of \<^verbatim>\<open>Checkout\<close> are
  \<open>co_user_id\<close> and \<open>co_item_id\<close> here, the plain names being taken by the
  records above. \<open>return_date = None\<close> is the unset return date: an open loan.
\<close>

record checkout =
  co_user_id :: string
  co_item_id :: string
  checkout_date :: datetime
  due_date :: datetime
  return_date :: "datetime option"

text \<open>
  \<^verbatim>\<open>Checkout.__init__\<close>: \<^verbatim>\<open>checkout_date or datetime.now()\<close> and
  \<^verbatim>\<open>due_date or (self.checkout_date + timedelta(days=14))\<close>; the addition is
  the one place of the constructor that can raise.
\<close>

definition Checkout_init ::
  "datetime \<Rightarrow> string \<Rightarrow> string \<Rightarrow> datetime option \<Rightarrow> datetime option \<Rightarrow> error + checkout"
where
  "Checkout_init now uid iid cd dd =
     (let c = (case cd of Some x \<Rightarrow> x | None \<Rightarrow> now) in
      case dd of
        Some x \<Rightarrow> Inr \<lparr>co_user_id = uid, co_item_id = iid, checkout_date = c, due_date = x,
                        return_date = None\<rparr>
      | None \<Rightarrow>
          (case add_days 14 c of
             None \<Rightarrow> Inl OverflowError
           | Some x \<Rightarrow> Inr \<lparr>co_user_id = uid, co_item_id = iid, checkout_date = c,
                             due_date = x, return_date = None\<rparr>))"

definition Checkout_return_item :: "datetime \<Rightarrow> checkout \<Rightarrow> checkout" where
  "Checkout_return_item now c = c\<lparr>return_date := Some now\<rparr>"

definition Checkout_to_dict :: "checkout \<Rightarrow> pydict" where
  "Checkout_to_dict c =
     [(''user_id'', JStr (co_user_id c)), (''item_id'', JStr (co_item_id c)),
      (''checkout_date'', JStr (isoformat (checkout_date c))),
      (''due_date'', JStr (isoformat (due_date c))),
      (''return_date'', (case return_date c of Some t \<Rightarrow> JStr (isoformat t) | None \<Rightarrow> JNull))]"

text \<open>\<^verbatim>\<open>datetime.fromisoformat(data[k])\<close>, with the exceptions it raises.\<close>

definition repr :: "string \<Rightarrow> string" where
  "repr s = [CHR 0x27] @ s @ [CHR 0x27]"

definition parse_date :: "jval \<Rightarrow> error + datetime" where
  "parse_date v =
     (case v of
        JStr s \<Rightarrow>
          (case fromisoformat s of
             None \<Rightarrow> Inl (ValueError (''Invalid isoformat string: '' @ repr s))
           | Some t \<Rightarrow> Inr t)
      | _ \<Rightarrow> Inl TypeError)"

definition get_date :: "pydict \<Rightarrow> string \<Rightarrow> error + datetime" where
  "get_date data k =
     (case map_of data k of None \<Rightarrow> Inl (KeyError k) | Some v \<Rightarrow> parse_date v)"

text \<open>Python truthiness of a JSON value, for \<^verbatim>\<open>if data["return_date"]:\<close>.\<close>

definition truthy :: "jval \<Rightarrow> bool" where
  "truthy v = (case v of JStr s \<Rightarrow> s \<noteq> [] | JBool b \<Rightarrow> b | JNull \<Rightarrow> False | JList xs \<Rightarrow> xs \<noteq> [])"

definition Checkout_from_dict :: "datetime \<Rightarrow> pydict \<Rightarrow> error + checkout" where
  "Checkout_from_dict now data =
     bind_err (get_str data ''user_id'') (\<lambda>uid.
     bind_err (get_str data ''item_id'') (\<lambda>iid.
     bind_err (get_date data ''checkout_date'') (\<lambda>cd.
     bind_err (get_date data ''due_date'') (\<lambda>dd.
     bind_err (Checkout_init now uid iid (Some cd) (Some dd)) (\<lambda>c.
       (case map_of data ''return_date'' of
          None \<Rightarrow> Inl (KeyError ''return_date'')
        | Some v \<Rightarrow>
            if truthy v
            then bind_err (parse_date v) (\<lambda>t. Inr (c\<lparr>return_date := Some t\<rparr>))
            else Inr c))))))"

subsection \<open>check.py: CheckoutManager\<close>

text \<open>
  The state of the three managers: the lists they hold in memory and the three
  stored collections.

  Modelled from the spec: \<^verbatim>\<open>Storage.save_data\<close>. In \<^verbatim>\<open>storage.py\<close> its
  \<^verbatim>\<open>def\<close> is indented under \<^verbatim>\<open>__init__\<close> with a body that is not indented
  below it, so the file gives it no behaviour; the persistence contract is
  \<^verbatim>\<open>saveCollection(name, records)\<close>, a full overwrite of the named collection.
\<close>

record library =
  checkouts :: "checkout list"
  books :: "book list"
  users :: "user list"
  checkouts_json :: "pydict list"
  books_json :: "pydict list"
  users_json :: "pydict list"

definition save_checkouts :: "library \<Rightarrow> library" where
  "save_checkouts s = s\<lparr>checkouts_json := map Checkout_to_dict (checkouts s)\<rparr>"

definition save_books :: "library \<Rightarrow> library" where
  "save_books s = s\<lparr>books_json := map Book_to_dict (books s)\<rparr>"

definition save_users :: "library \<Rightarrow> library" where
  "save_users s = s\<lparr>users_json := map User_to_dict (users s)\<rparr>"

text \<open>
  The object found by \<^verbatim>\<open>next(...)\<close> is the first element of the list that
  satisfies the condition; assigning to its attributes changes that element and
  no other.
\<close>

fun update_first :: "('a \<Rightarrow> bool) \<Rightarrow> ('a \<Rightarrow> 'a) \<Rightarrow> 'a list \<Rightarrow> 'a list" where
  "update_first P f [] = []"
| "update_first P f (x # xs) = (if P x then f x # xs else x # update_first P f xs)"

definition user_not_found :: "string \<Rightarrow> error" where
  "user_not_found uid = ValueError (''User with ID '' @ uid @ '' not found'')"

definition book_not_found :: "string \<Rightarrow> error" where
  "book_not_found isbn = ValueError (''Book with ISBN '' @ isbn @ '' not found'')"

definition book_not_available :: "string \<Rightarrow> error" where
  "book_not_available isbn = ValueError (''Book with ISBN '' @ isbn @ '' is not available'')"

definition no_active_checkout :: "string \<Rightarrow> string \<Rightarrow> error" where
  "no_active_checkout uid isbn =
     ValueError (''No active checkout found for user '' @ uid @ '' and book '' @ isbn)"

text \<open>
  Both operations return the exception raised, if any, and the state at that
  point.
\<close>

definition checkout_book :: "datetime \<Rightarrow> string \<Rightarrow> string \<Rightarrow> library \<Rightarrow> error option \<times> library"
where
  "checkout_book now uid isbn s =
     (case get_user_by_id (users s) uid of
        None \<Rightarrow> (Some (user_not_found uid), s)
      | Some u \<Rightarrow>
          (case get_book_by_isbn (books s) isbn of
             None \<Rightarrow> (Some (book_not_found isbn), s)
           | Some b \<Rightarrow>
               if \<not> is_available b then (Some (book_not_available isbn), s)
               else
                 (case Checkout_init now uid isbn None None of
                    Inl e \<Rightarrow> (Some e, s)
                  | Inr c \<Rightarrow>
                      (let s1 = s\<lparr>checkouts := checkouts s @ [c]\<rparr>;
                           s2 = s1\<lparr>books := update_first (\<lambda>b. item_id b = isbn)
                                    (\<lambda>b. b\<lparr>is_available := False\<rparr>) (books s1)\<rparr>;
                           s3 = s2\<lparr>users := update_first (\<lambda>u. user_id u = uid)
                                    (\<lambda>u. borrow_item u isbn) (users s2)\<rparr>
                       in (None, save_users (save_books (save_checkouts s3)))))))"

text \<open>
  The condition of the generator in \<^verbatim>\<open>return_book\<close>:
  \<^verbatim>\<open>c.user_id == user_id and c.item_id == isbn and not c.return_date\<close>.
\<close>

definition active :: "string \<Rightarrow> string \<Rightarrow> checkout \<Rightarrow> bool" where
  "active uid isbn c = (co_user_id c = uid \<and> co_item_id c = isbn \<and> return_date c = None)"

definition return_book :: "datetime \<Rightarrow> string \<Rightarrow> string \<Rightarrow> library \<Rightarrow> error option \<times> library"
where
  "return_book now uid isbn s =
     (case get_user_by_id (users s) uid of
        None \<Rightarrow> (Some (user_not_found uid), s)
      | Some u \<Rightarrow>
          (case get_book_by_isbn (books s) isbn of
             None \<Rightarrow> (Some (book_not_found isbn), s)
           | Some b \<Rightarrow>
               (case find (active uid isbn) (checkouts s) of
                  None \<Rightarrow> (Some (no_active_checkout uid isbn), s)
                | Some c \<Rightarrow>
                    (let s1 = s\<lparr>checkouts := update_first (active uid isbn)
                                    (Checkout_return_item now) (checkouts s)\<rparr>;
                         s2 = s1\<lparr>books := update_first (\<lambda>b. item_id b = isbn)
                                    (\<lambda>b. b\<lparr>is_available := True\<rparr>) (books s1)\<rparr>;
                         s3 = s2\<lparr>users := update_first (\<lambda>u. user_id u = uid)
                                    (\<lambda>u. User_return_item u isbn) (users s2)\<rparr>
                     in (None, save_users (save_books (save_checkouts s3)))))))"

text \<open>
  A sequence of requests, as \<^verbatim>\<open>process_choice\<close> in \<^verbatim>\<open>main.py\<close> serves them:
  an exception is reported and the next request is served on the state left
  behind. Each request carries the clock reading of its call.
\<close>

datatype request = Checkout_req datetime string string | Return_req datetime string string

fun serve :: "request \<Rightarrow> library \<Rightarrow> library" where
  "serve (Checkout_req now uid isbn) s = snd (checkout_book now uid isbn s)"
| "serve (Return_req now uid isbn) s = snd (return_book now uid isbn s)"

fun run :: "request list \<Rightarrow> library \<Rightarrow> library" where
  "run [] s = s"
| "run (r # rs) s = run rs (serve r s)"

subsection \<open>The properties of a state\<close>

text \<open>The open loans of an item, and the items a user has open loans for.\<close>

definition open_loans :: "checkout list \<Rightarrow> string \<Rightarrow> checkout list" where
  "open_loans cs iid = filter (\<lambda>c. co_item_id c = iid \<and> return_date c = None) cs"

definition open_items :: "checkout list \<Rightarrow> string \<Rightarrow> string list" where
  "open_items cs uid =
     map co_item_id (filter (\<lambda>c. co_user_id c = uid \<and> return_date c = None) cs)"

text \<open>
  Mutual exclusion as the specification words it: a book is unavailable iff it
  has exactly one open loan.
\<close>

definition mutual_exclusion :: "library \<Rightarrow> bool" where
  "mutual_exclusion s =
     (\<forall>b \<in> set (books s).
        (\<not> is_available b) = (length (open_loans (checkouts s) (item_id b)) = 1))"

text \<open>
  The stronger property the code maintains: ISBNs are unique, an unavailable
  book has one open loan and an available book has none.
\<close>

definition availability_inv :: "library \<Rightarrow> bool" where
  "availability_inv s =
     (distinct (map item_id (books s)) \<and>
      (\<forall>b \<in> set (books s).
         length (open_loans (checkouts s) (item_id b)) = (if is_available b then 0 else 1)))"

text \<open>
  Set consistency as the specification words it: each user's list has no
  duplicates and holds exactly the items of the user's open loans.
\<close>

definition set_consistency :: "library \<Rightarrow> bool" where
  "set_consistency s =
     (\<forall>u \<in> set (users s).
        distinct (borrowed_items u) \<and>
        set (borrowed_items u) = set (open_items (checkouts s) (user_id u)))"

definition library_inv :: "library \<Rightarrow> bool" where
  "library_inv s =
     (availability_inv s \<and> distinct (map user_id (users s)) \<and> set_consistency s)"

text \<open>
  The timestamps of a \<^verbatim>\<open>Checkout\<close> object are Python datetimes, hence valid.
\<close>

definition valid_checkout :: "checkout \<Rightarrow> bool" where
  "valid_checkout c =
     (valid_datetime (checkout_date c) \<and> valid_datetime (due_date c) \<and>
      (case return_date c of None \<Rightarrow> True | Some t \<Rightarrow> valid_datetime t))"

text \<open>
  What an operation on the pair \<open>(uid, isbn)\<close> keeps: every entry of the old ledger
  is still at its place with its user, item, checkout date and due date, and every
  book with another ISBN and every user with another id is the same object as
  before.
\<close>

definition same_loan :: "checkout \<Rightarrow> checkout \<Rightarrow> bool" where
  "same_loan c c' =
     (co_user_id c' = co_user_id c \<and> co_item_id c' = co_item_id c \<and>
      checkout_date c' = checkout_date c \<and> due_date c' = due_date c)"

definition ledger_kept :: "checkout list \<Rightarrow> checkout list \<Rightarrow> bool" where
  "ledger_kept cs cs' =
     (length cs \<le> length cs' \<and> list_all2 same_loan cs (take (length cs) cs'))"

definition others_unchanged :: "string \<Rightarrow> string \<Rightarrow> library \<Rightarrow> library \<Rightarrow> bool" where
  "others_unchanged uid isbn s s' =
     (list_all2 (\<lambda>b b'. item_id b \<noteq> isbn \<longrightarrow> b' = b) (books s) (books s') \<and>
      list_all2 (\<lambda>u u'. user_id u \<noteq> uid \<longrightarrow> u' = u) (users s) (users s'))"

subsection \<open>Sample data\<close>

definition clock1 :: datetime where
  "clock1 = \<lparr>year = 2024, month = 2, day = 20, hour = 9, minute = 30, second = 0,
             microsecond = 0\<rparr>"

definition clock2 :: datetime where
  "clock2 = \<lparr>year = 2024, month = 3, day = 5, hour = 9, minute = 30, second = 0,
             microsecond = 0\<rparr>"

definition clock3 :: datetime where
  "clock3 = \<lparr>year = 2024, month = 3, day = 1, hour = 17, minute = 4, second = 59,
             microsecond = 120\<rparr>"

definition book1 :: book where
  "book1 = \<lparr>title = ''Emma'', author = ''Austen'', item_id = ''ISBN1'', is_available = True\<rparr>"

definition book2 :: book where
  "book2 = \<lparr>title = ''Ulysses'', author = ''Joyce'', item_id = ''ISBN2'', is_available = True\<rparr>"

definition user1 :: user where
  "user1 = \<lparr>name = ''Ann'', user_id = ''U1'', borrowed_items = []\<rparr>"

definition user2 :: user where
  "user2 = \<lparr>name = ''Bob'', user_id = ''U2'', borrowed_items = []\<rparr>"

definition loan1 :: checkout where
  "loan1 = \<lparr>co_user_id = ''U1'', co_item_id = ''ISBN1'', checkout_date = clock1,
            due_date = clock2, return_date = None\<rparr>"

definition loan1_closed :: checkout where
  "loan1_closed = loan1\<lparr>return_date := Some clock3\<rparr>"

text \<open>A freshly stocked library: two books, two users, no loans.\<close>

definition fresh :: library where
  "fresh = \<lparr>checkouts = [], books = [book1, book2], users = [user1, user2],
            checkouts_json = [], books_json = [], users_json = []\<rparr>"

text \<open>The library after \<open>U1\<close> has checked out \<open>ISBN1\<close> at \<open>clock1\<close>.\<close>

definition lent :: library where
  "lent = \<lparr>checkouts = [loan1],
           books = [book1\<lparr>is_available := False\<rparr>, book2],
           users = [user1\<lparr>borrowed_items := [''ISBN1'']\<rparr>, user2],
           checkouts_json = [Checkout_to_dict loan1],
           books_json = [Book_to_dict (book1\<lparr>is_available := False\<rparr>), Book_to_dict book2],
           users_json = [User_to_dict (user1\<lparr>borrowed_items := [''ISBN1'']\<rparr>),
                         User_to_dict user2]\<rparr>"

text \<open>
  A library as \<^verbatim>\<open>from_dict\<close> loads it from stored collections in which the same
  loan is recorded twice as open: the book is available and the user holds it.
\<close>

definition doubled :: library where
  "doubled = \<lparr>checkouts = [loan1, loan1], books = [book1],
              users = [user1\<lparr>borrowed_items := [''ISBN1'']\<rparr>],
              checkouts_json = [Checkout_to_dict loan1, Checkout_to_dict loan1],
              books_json = [Book_to_dict book1],
              users_json = [User_to_dict (user1\<lparr>borrowed_items := [''ISBN1'']\<rparr>)]\<rparr>"

text \<open>A stored user record that lists the same item twice.\<close>

definition twice_record :: pydict where
  "twice_record = [(''name'', JStr ''Ann''), (''user_id'', JStr ''U1''),
                   (''borrowed_items'', JList [''ISBN1'', ''ISBN1''])]"

section \<open>Auxiliary facts\<close>

subsection \<open>Reading back what isoformat writes\<close>

lemma digit_val_digit_char: "digit_val (digit_char n) = Some (n mod 10)"
proof -
  have "n mod 10 < 10" by simp
  then consider "n mod 10 = 0" | "n mod 10 = 1" | "n mod 10 = 2" | "n mod 10 = 3" | "n mod 10 = 4"
    | "n mod 10 = 5" | "n mod 10 = 6" | "n mod 10 = 7" | "n mod 10 = 8" | "n mod 10 = 9"
    by atomize_elim presburger
  then show ?thesis
    by cases (simp_all add: digit_val_def digit_char_def)
qed

lemma length_pad: "length (pad k n) = k"
  by (induction k arbitrary: n) simp_all

lemma digits_val_append:
  "digits_val (xs @ ys) acc =
     (case digits_val xs acc of None \<Rightarrow> None | Some a \<Rightarrow> digits_val ys a)"
  by (induction xs arbitrary: acc) (simp_all split: option.splits)

lemma digits_val_pad: "n < 10 ^ k \<Longrightarrow> digits_val (pad k n) acc = Some (acc * 10 ^ k + n)"
proof (induction k arbitrary: n acc)
  case 0
  then show ?case by simp
next
  case (Suc k)
  from Suc.prems have "n div 10 < 10 ^ k"
    by (simp add: less_mult_imp_div_less mult.commute)
  from Suc.IH [OF this, of acc] show ?case
    by (simp add: digits_val_append digit_val_digit_char algebra_simps)
qed

lemma fromisoformat_isoformat:
  assumes "valid_datetime d"
  shows "fromisoformat (isoformat d) = Some d"
proof (cases d)
  case (fields y mo dd h mi se us)
  from assms have b: "y < 10 ^ 4" "mo < 10 ^ 2" "dd < 10 ^ 2" "h < 10 ^ 2"
    "mi < 10 ^ 2" "se < 10 ^ 2" "us < 10 ^ 6"
    by (simp_all add: fields valid_datetime_def days_in_month_def split: if_splits)
  note p = digits_val_pad [where acc = 0, simplified]
  have f: "digits_val (pad 4 y) 0 = Some y" "digits_val (pad 2 mo) 0 = Some mo"
    "digits_val (pad 2 dd) 0 = Some dd" "digits_val (pad 2 h) 0 = Some h"
    "digits_val (pad 2 mi) 0 = Some mi" "digits_val (pad 2 se) 0 = Some se"
    "digits_val (pad 6 us) 0 = Some us"
    using b by (simp_all only: p)
  from assms show ?thesis
    unfolding fromisoformat_def isoformat_def fields
    by (auto simp add: length_pad nth_append f Let_def valid_datetime_def simp del: pad.simps)
qed

lemma add_days_numeral:
  "add_days (numeral k) d =
     (case next_day d of None \<Rightarrow> None | Some d' \<Rightarrow> add_days (pred_numeral k) d')"
  by (simp add: numeral_eq_Suc)

lemma add_days_1: "add_days 1 d = next_day d"
  by (simp split: option.splits)

lemma add_days_clock1: "add_days 14 clock1 = Some clock2"
  by (simp add: add_days_numeral add_days_1 next_day_def days_in_month_def is_leap_def
      clock1_def clock2_def)

subsection \<open>Updating the first match\<close>

lemma length_update_first: "length (update_first P f xs) = length xs"
  by (induction xs) simp_all

lemma find_update_first:
  "(\<And>x. P x \<Longrightarrow> P (f x)) \<Longrightarrow> find P (update_first P f xs) = map_option f (find P xs)"
  by (induction xs) simp_all

lemma map_update_first: "(\<And>x. g (f x) = g x) \<Longrightarrow> map g (update_first P f xs) = map g xs"
  by (induction xs) simp_all

lemma update_first_distinct_key:
  "distinct (map k xs) \<Longrightarrow>
   update_first (\<lambda>x. k x = a) f xs = map (\<lambda>x. if k x = a then f x else x) xs"
proof (induction xs)
  case Nil
  then show ?case by simp
next
  case (Cons x xs)
  show ?case
  proof (cases "k x = a")
    case True
    from Cons.prems have "k x \<notin> k ` set xs" by simp
    with True have "\<forall>y \<in> set xs. k y \<noteq> a" by blast
    then have "map (\<lambda>x. if k x = a then f x else x) xs = xs"
      by (induction xs) simp_all
    with True show ?thesis by simp
  next
    case False
    with Cons show ?thesis by simp
  qed
qed

lemma update_first_index:
  "find P xs = Some c \<Longrightarrow>
   \<exists>i < length xs. xs ! i = c \<and> P c \<and> (\<forall>j < i. \<not> P (xs ! j)) \<and> update_first P f xs = xs[i := f c]"
proof (induction xs)
  case Nil
  then show ?case by simp
next
  case (Cons x xs)
  show ?case
  proof (cases "P x")
    case True
    with Cons.prems have "x = c" by simp
    with True have "0 < length (x # xs) \<and> (x # xs) ! 0 = c \<and> P c \<and> (\<forall>j < 0. \<not> P ((x # xs) ! j)) \<and>
        update_first P f (x # xs) = (x # xs)[0 := f c]"
      by simp
    then show ?thesis by blast
  next
    case False
    with Cons.prems have "find P xs = Some c" by simp
    from Cons.IH [OF this] obtain i where i: "i < length xs" "xs ! i = c" "P c"
      "\<forall>j < i. \<not> P (xs ! j)" "update_first P f xs = xs[i := f c]"
      by blast
    have "\<forall>j < Suc i. \<not> P ((x # xs) ! j)"
    proof (intro allI impI)
      fix j assume "j < Suc i"
      then show "\<not> P ((x # xs) ! j)" using False i(4) by (cases j) simp_all
    qed
    with i False have "Suc i < length (x # xs) \<and> (x # xs) ! Suc i = c \<and> P c \<and>
        (\<forall>j < Suc i. \<not> P ((x # xs) ! j)) \<and> update_first P f (x # xs) = (x # xs)[Suc i := f c]"
      by simp
    then show ?thesis by blast
  qed
qed

lemma checkout_book_fail: "fst (checkout_book now uid isbn s) = Some e \<Longrightarrow> snd (checkout_book now uid isbn s) = s"
  by (simp add: checkout_book_def Let_def split: option.splits if_splits sum.splits)

lemma return_book_fail: "fst (return_book now uid isbn s) = Some e \<Longrightarrow> snd (return_book now uid isbn s) = s"
  by (simp add: return_book_def Let_def split: option.splits if_splits sum.splits)

lemma checkout_book_ok:
  assumes "get_user_by_id (users s) uid = Some u" "get_book_by_isbn (books s) isbn = Some b"
    "is_available b" "add_days 14 now = Some due"
  shows "checkout_book now uid isbn s =
    (None, s\<lparr>checkouts := checkouts s @ [\<lparr>co_user_id = uid, co_item_id = isbn, checkout_date = now,
                 due_date = due, return_date = None\<rparr>],
             books := update_first (\<lambda>b. item_id b = isbn) (\<lambda>b. b\<lparr>is_available := False\<rparr>) (books s),
             users := update_first (\<lambda>u. user_id u = uid) (\<lambda>u. borrow_item u isbn) (users s),
             checkouts_json := map Checkout_to_dict (checkouts s @ [\<lparr>co_user_id = uid, co_item_id = isbn,
                 checkout_date = now, due_date = due, return_date = None\<rparr>]),
             books_json := map Book_to_dict
               (update_first (\<lambda>b. item_id b = isbn) (\<lambda>b. b\<lparr>is_available := False\<rparr>) (books s)),
             users_json := map User_to_dict
               (update_first (\<lambda>u. user_id u = uid) (\<lambda>u. borrow_item u isbn) (users s))\<rparr>)"
  using assms
  by (simp add: checkout_book_def Checkout_init_def Let_def save_users_def save_books_def save_checkouts_def)

lemma checkout_book_None:
  "fst (checkout_book now uid isbn s) = None \<Longrightarrow>
   \<exists>u b due. get_user_by_id (users s) uid = Some u \<and> get_book_by_isbn (books s) isbn = Some b \<and>
     is_available b \<and> add_days 14 now = Some due"
  by (simp add: checkout_book_def Checkout_init_def Let_def split: option.splits if_splits)

lemma return_book_ok:
  assumes "get_user_by_id (users s) uid = Some u" "get_book_by_isbn (books s) isbn = Some b"
    "find (active uid isbn) (checkouts s) = Some c"
  shows "return_book now uid isbn s =
    (None, s\<lparr>checkouts := update_first (active uid isbn) (Checkout_return_item now) (checkouts s),
             books := update_first (\<lambda>b. item_id b = isbn) (\<lambda>b. b\<lparr>is_available := True\<rparr>) (books s),
             users := update_first (\<lambda>u. user_id u = uid) (\<lambda>u. User_return_item u isbn) (users s),
             checkouts_json := map Checkout_to_dict
               (update_first (active uid isbn) (Checkout_return_item now) (checkouts s)),
             books_json := map Book_to_dict
               (update_first (\<lambda>b. item_id b = isbn) (\<lambda>b. b\<lparr>is_available := True\<rparr>) (books s)),
             users_json := map User_to_dict
               (update_first (\<lambda>u. user_id u = uid) (\<lambda>u. User_return_item u isbn) (users s))\<rparr>)"
  using assms
  by (simp add: return_book_def Let_def save_users_def save_books_def save_checkouts_def)

lemma return_book_None:
  "fst (return_book now uid isbn s) = None \<Longrightarrow>
   \<exists>u b c. get_user_by_id (users s) uid = Some u \<and> get_book_by_isbn (books s) isbn = Some b \<and>
     find (active uid isbn) (checkouts s) = Some c"
  by (simp add: return_book_def Let_def split: option.splits if_splits)

subsection \<open>Serialised loans\<close>

lemma get_date_isoformat:
  "valid_datetime t \<Longrightarrow> map_of data k = Some (JStr (isoformat t)) \<Longrightarrow> get_date data k = Inr t"
  by (simp add: get_date_def parse_date_def fromisoformat_isoformat)

lemma isoformat_nonempty: "isoformat t \<noteq> []"
proof -
  have "0 < length (isoformat t)"
    by (simp add: isoformat_def length_pad)
  then show ?thesis by auto
qed

lemma Checkout_roundtrip:
  assumes "valid_checkout c"
  shows "Checkout_from_dict now (Checkout_to_dict c) = Inr c"
proof (cases "return_date c")
  case None
  with assms show ?thesis
    by (simp add: Checkout_from_dict_def Checkout_to_dict_def Checkout_init_def bind_err_def
        get_str_def get_date_def parse_date_def fromisoformat_isoformat truthy_def valid_checkout_def)
next
  case (Some t)
  with assms show ?thesis
    by (simp add: Checkout_from_dict_def Checkout_to_dict_def Checkout_init_def bind_err_def
        get_str_def get_date_def parse_date_def fromisoformat_isoformat truthy_def valid_checkout_def
        isoformat_nonempty)
qed

lemma valid_loan1: "valid_checkout loan1"
  by (simp add: valid_checkout_def loan1_def clock1_def clock2_def
      valid_datetime_def days_in_month_def is_leap_def)

lemma valid_loan1_closed: "valid_checkout loan1_closed"
  by (simp add: valid_checkout_def loan1_closed_def loan1_def clock1_def clock2_def clock3_def
      valid_datetime_def days_in_month_def is_leap_def)

section \<open>Serialisation\<close>

text \<open>
  Claim C8. Round trip: for every Book, User and Checkout,
  \<^verbatim>\<open>from_dict(to_dict(x))\<close> equals \<open>x\<close> field for field. For a Checkout this covers
  \<open>co_user_id\<close>, \<open>co_item_id\<close>, \<open>checkout_date\<close>, \<open>due_date\<close> and \<open>return_date\<close>: an
  unset return date is written as \<open>JNull\<close> and read back as unset, a set one is written
  as its ISO-8601 string and read back as the same timestamp. The timestamps of the
  Checkout are datetimes (\<open>valid_checkout\<close>).
\<close>

theorem to_dict_from_dict_roundtrip:
  "Book_from_dict (Book_to_dict b) = Inr b \<and>
   User_from_dict (User_to_dict u) = Inr u \<and>
   (valid_checkout c \<longrightarrow> Checkout_from_dict now (Checkout_to_dict c) = Inr c) \<and>
   (map_of (Checkout_to_dict c) ''return_date'' =
      Some (case return_date c of None \<Rightarrow> JNull | Some t \<Rightarrow> JStr (isoformat t)))"
proof (intro conjI impI)
  show "Book_from_dict (Book_to_dict b) = Inr b"
    by (simp add: Book_from_dict_def Book_to_dict_def bind_err_def get_str_def)
  show "User_from_dict (User_to_dict u) = Inr u"
    by (simp add: User_from_dict_def User_to_dict_def bind_err_def get_str_def)
  show "Checkout_from_dict now (Checkout_to_dict c) = Inr c" if "valid_checkout c"
    using that by (rule Checkout_roundtrip)
  show "map_of (Checkout_to_dict c) ''return_date'' =
      Some (case return_date c of None \<Rightarrow> JNull | Some t \<Rightarrow> JStr (isoformat t))"
    by (simp add: Checkout_to_dict_def split: option.splits)
qed

theorem to_dict_from_dict_roundtrip_witness:
  "valid_checkout loan1 \<and> valid_checkout loan1_closed \<and>
   Checkout_from_dict clock1 (Checkout_to_dict loan1) = Inr loan1 \<and>
   return_date loan1 = None \<and> map_of (Checkout_to_dict loan1) ''return_date'' = Some JNull \<and>
   Checkout_from_dict clock1 (Checkout_to_dict loan1_closed) = Inr loan1_closed \<and>
   return_date loan1_closed = Some clock3 \<and>
   map_of (Checkout_to_dict loan1_closed) ''return_date'' = Some (JStr (isoformat clock3)) \<and>
   Book_from_dict (Book_to_dict book1) = Inr book1 \<and>
   User_from_dict (User_to_dict user1) = Inr user1"
  using to_dict_from_dict_roundtrip [of book1 user1 loan1 clock1]
    to_dict_from_dict_roundtrip [of book1 user1 loan1_closed clock1]
    valid_loan1 valid_loan1_closed
  by (simp add: loan1_def loan1_closed_def)

text \<open>
  Claim C10. \<^verbatim>\<open>User.from_dict\<close> validates nothing: whenever it returns a user, that
  user's \<open>borrowed_items\<close> is the record's sequence as it stands; on every record
  with the three fields it does return that user; and for the record
  \<open>twice_record\<close>, which lists an item twice, the list it loads has a duplicate.
\<close>

theorem User_from_dict_verbatim:
  "(User_from_dict data = Inr u \<longrightarrow>
      map_of data ''borrowed_items'' = Some (JList (borrowed_items u))) \<and>
   (map_of data ''name'' = Some (JStr n) \<and> map_of data ''user_id'' = Some (JStr i) \<and>
    map_of data ''borrowed_items'' = Some (JList xs) \<longrightarrow>
      User_from_dict data = Inr \<lparr>name = n, user_id = i, borrowed_items = xs\<rparr>) \<and>
   User_from_dict twice_record =
     Inr \<lparr>name = ''Ann'', user_id = ''U1'', borrowed_items = [''ISBN1'', ''ISBN1'']\<rparr> \<and>
   \<not> distinct [''ISBN1'', ''ISBN1'']"
  by (auto simp add: User_from_dict_def bind_err_def get_str_def twice_record_def
      split: option.splits jval.splits sum.splits)

theorem User_from_dict_verbatim_witness:
  "User_from_dict twice_record =
     Inr \<lparr>name = ''Ann'', user_id = ''U1'', borrowed_items = [''ISBN1'', ''ISBN1'']\<rparr> \<and>
   map_of twice_record ''name'' = Some (JStr ''Ann'') \<and>
   map_of twice_record ''user_id'' = Some (JStr ''U1'') \<and>
   map_of twice_record ''borrowed_items'' = Some (JList [''ISBN1'', ''ISBN1''])"
  using User_from_dict_verbatim [of twice_record
      "\<lparr>name = ''Ann'', user_id = ''U1'', borrowed_items = [''ISBN1'', ''ISBN1'']\<rparr>"
      "''Ann''" "''U1''" "[''ISBN1'', ''ISBN1'']"]
  by (simp add: twice_record_def)

section \<open>The held items of a user\<close>

text \<open>
  Claim C9. \<^verbatim>\<open>borrow_item\<close> is idempotent: borrowing the same item twice gives the
  list that borrowing it once gives, an item already held is not inserted again, and
  a list without duplicates stays so. \<^verbatim>\<open>return_item\<close> of an item that is not in
  the list leaves the user as it is.
\<close>

theorem held_items_idempotent:
  "borrow_item (borrow_item u i) i = borrow_item u i \<and>
   (i \<in> set (borrowed_items u) \<longrightarrow> borrow_item u i = u) \<and>
   (distinct (borrowed_items u) \<longrightarrow> distinct (borrowed_items (borrow_item u i))) \<and>
   (i \<notin> set (borrowed_items u) \<longrightarrow> User_return_item u i = u)"
  by (simp add: borrow_item_def User_return_item_def)

theorem held_items_idempotent_witness:
  "borrow_item (borrow_item user1 ''ISBN1'') ''ISBN1'' = user1\<lparr>borrowed_items := [''ISBN1'']\<rparr> \<and>
   borrow_item user1 ''ISBN1'' = user1\<lparr>borrowed_items := [''ISBN1'']\<rparr> \<and>
   ''ISBN1'' \<in> set (borrowed_items (user1\<lparr>borrowed_items := [''ISBN1'']\<rparr>)) \<and>
   borrow_item (user1\<lparr>borrowed_items := [''ISBN1'']\<rparr>) ''ISBN1'' = user1\<lparr>borrowed_items := [''ISBN1'']\<rparr> \<and>
   distinct (borrowed_items user1) \<and> distinct (borrowed_items (borrow_item user1 ''ISBN1'')) \<and>
   ''ISBN2'' \<notin> set (borrowed_items (user1\<lparr>borrowed_items := [''ISBN1'']\<rparr>)) \<and>
   User_return_item (user1\<lparr>borrowed_items := [''ISBN1'']\<rparr>) ''ISBN2'' = user1\<lparr>borrowed_items := [''ISBN1'']\<rparr>"
  using held_items_idempotent [of user1 "''ISBN1''"]
    held_items_idempotent [of "user1\<lparr>borrowed_items := [''ISBN1'']\<rparr>" "''ISBN1''"]
    held_items_idempotent [of "user1\<lparr>borrowed_items := [''ISBN1'']\<rparr>" "''ISBN2''"]
  by (simp add: user1_def borrow_item_def)

section \<open>Checkout\<close>

lemma find_Some_first:
  "\<exists>c \<in> set xs. P c \<Longrightarrow> \<exists>c. find P xs = Some c"
  by (induction xs) auto

lemma find_fresh: "get_user_by_id (users fresh) ''U1'' = Some user1"
  "get_book_by_isbn (books fresh) ''ISBN1'' = Some book1" "is_available book1"
  by (simp_all add: get_user_by_id_def get_book_by_isbn_def fresh_def user1_def user2_def
      book1_def book2_def)

text \<open>
  Claim C3. When the user id resolves, the ISBN resolves and the book found is
  available, \<^verbatim>\<open>checkout_book\<close> returns normally; the new ledger is the old one
  with exactly one loan appended at its end, with that user id and item id, checkout
  date \<open>now\<close>, due date \<open>now\<close> plus 14 days and no return date; the book is now
  unavailable; the ISBN is in the user's list (appended unless it was there); and the
  three collections are saved. The clock is such that \<open>now\<close> plus 14 days is a date.
\<close>

theorem checkout_book_success:
  assumes "get_user_by_id (users s) uid = Some u"
    and "get_book_by_isbn (books s) isbn = Some b"
    and "is_available b"
    and "add_days 14 now = Some due"
  shows "let s' = snd (checkout_book now uid isbn s) in
    fst (checkout_book now uid isbn s) = None \<and>
    checkouts s' = checkouts s @ [\<lparr>co_user_id = uid, co_item_id = isbn, checkout_date = now,
                                   due_date = due, return_date = None\<rparr>] \<and>
    get_book_by_isbn (books s') isbn = Some (b\<lparr>is_available := False\<rparr>) \<and>
    get_user_by_id (users s') uid = Some (borrow_item u isbn) \<and>
    isbn \<in> set (borrowed_items (borrow_item u isbn)) \<and>
    borrowed_items (borrow_item u isbn) =
      (if isbn \<in> set (borrowed_items u) then borrowed_items u else borrowed_items u @ [isbn]) \<and>
    checkouts_json s' = map Checkout_to_dict (checkouts s') \<and>
    books_json s' = map Book_to_dict (books s') \<and>
    users_json s' = map User_to_dict (users s')"
proof -
  have b': "find (\<lambda>b. item_id b = isbn)
      (update_first (\<lambda>b. item_id b = isbn) (\<lambda>b. b\<lparr>is_available := False\<rparr>) (books s)) =
      Some (b\<lparr>is_available := False\<rparr>)"
    using assms(2) by (simp add: find_update_first get_book_by_isbn_def)
  have u': "find (\<lambda>u. user_id u = uid)
      (update_first (\<lambda>u. user_id u = uid) (\<lambda>u. borrow_item u isbn) (users s)) =
      Some (borrow_item u isbn)"
    using assms(1) by (simp add: find_update_first get_user_by_id_def borrow_item_def)
  show ?thesis
    unfolding checkout_book_ok [OF assms]
    using b' u' by (simp add: Let_def get_book_by_isbn_def get_user_by_id_def borrow_item_def)
qed

theorem checkout_book_success_witness:
  "get_user_by_id (users fresh) ''U1'' = Some user1 \<and>
   get_book_by_isbn (books fresh) ''ISBN1'' = Some book1 \<and> is_available book1 \<and>
   add_days 14 clock1 = Some clock2 \<and>
   (let s' = snd (checkout_book clock1 ''U1'' ''ISBN1'' fresh) in
      fst (checkout_book clock1 ''U1'' ''ISBN1'' fresh) = None \<and>
      checkouts s' = checkouts fresh @ [loan1] \<and>
      get_book_by_isbn (books s') ''ISBN1'' = Some (book1\<lparr>is_available := False\<rparr>) \<and>
      get_user_by_id (users s') ''U1'' = Some (user1\<lparr>borrowed_items := [''ISBN1'']\<rparr>))"
  using checkout_book_success [OF find_fresh add_days_clock1] find_fresh add_days_clock1
  by (simp add: Let_def loan1_def borrow_item_def user1_def)

lemma find_None_no_match: "(find P xs = None) = (\<forall>x \<in> set xs. \<not> P x)"
  by (induction xs) auto

text \<open>
  Claim C4. \<^verbatim>\<open>checkout_book\<close> raises the user-not-found error when the user id is
  absent, the book-not-found error when the user resolves and the ISBN is absent, the
  not-available error when both resolve and the book found is unavailable. The three
  errors differ. Whatever it raises, the state it leaves is the state it was called on:
  ledger, books, users and stored collections.
\<close>

theorem checkout_book_failure:
  "(get_user_by_id (users s) uid = None \<longrightarrow>
      checkout_book now uid isbn s = (Some (user_not_found uid), s)) \<and>
   (get_user_by_id (users s) uid \<noteq> None \<and> get_book_by_isbn (books s) isbn = None \<longrightarrow>
      checkout_book now uid isbn s = (Some (book_not_found isbn), s)) \<and>
   (get_user_by_id (users s) uid \<noteq> None \<and> get_book_by_isbn (books s) isbn = Some b \<and>
    \<not> is_available b \<longrightarrow>
      checkout_book now uid isbn s = (Some (book_not_available isbn), s)) \<and>
   (fst (checkout_book now uid isbn s) \<noteq> None \<longrightarrow> snd (checkout_book now uid isbn s) = s) \<and>
   user_not_found uid \<noteq> book_not_found isbn \<and>
   user_not_found uid \<noteq> book_not_available isbn \<and>
   book_not_found isbn \<noteq> book_not_available isbn"
proof (intro conjI impI)
  show "checkout_book now uid isbn s = (Some (user_not_found uid), s)"
    if "get_user_by_id (users s) uid = None"
    using that by (simp add: checkout_book_def)
  show "checkout_book now uid isbn s = (Some (book_not_found isbn), s)"
    if "get_user_by_id (users s) uid \<noteq> None \<and> get_book_by_isbn (books s) isbn = None"
    using that by (auto simp add: checkout_book_def)
  show "checkout_book now uid isbn s = (Some (book_not_available isbn), s)"
    if "get_user_by_id (users s) uid \<noteq> None \<and> get_book_by_isbn (books s) isbn = Some b \<and>
      \<not> is_available b"
    using that by (auto simp add: checkout_book_def)
  show "snd (checkout_book now uid isbn s) = s" if "fst (checkout_book now uid isbn s) \<noteq> None"
    using that checkout_book_fail [of now uid isbn s] by auto
  show "user_not_found uid \<noteq> book_not_found isbn"
    by (simp add: user_not_found_def book_not_found_def)
  show "user_not_found uid \<noteq> book_not_available isbn"
    by (simp add: user_not_found_def book_not_available_def)
  show "book_not_found isbn \<noteq> book_not_available isbn"
    by (simp add: book_not_found_def book_not_available_def)
qed

lemma find_lent:
  "get_user_by_id (users lent) ''U1'' = Some (user1\<lparr>borrowed_items := [''ISBN1'']\<rparr>)"
  "get_user_by_id (users lent) ''U2'' = Some user2"
  "get_user_by_id (users lent) ''U3'' = None"
  "get_book_by_isbn (books lent) ''ISBN1'' = Some (book1\<lparr>is_available := False\<rparr>)"
  "get_book_by_isbn (books lent) ''ISBN2'' = Some book2"
  "get_book_by_isbn (books lent) ''ISBN3'' = None"
  by (simp_all add: get_user_by_id_def get_book_by_isbn_def lent_def user1_def user2_def
      book1_def book2_def)

theorem checkout_book_failure_witness:
  "get_user_by_id (users lent) ''U3'' = None \<and>
   checkout_book clock3 ''U3'' ''ISBN1'' lent = (Some (user_not_found ''U3''), lent) \<and>
   get_user_by_id (users lent) ''U2'' \<noteq> None \<and> get_book_by_isbn (books lent) ''ISBN3'' = None \<and>
   checkout_book clock3 ''U2'' ''ISBN3'' lent = (Some (book_not_found ''ISBN3''), lent) \<and>
   get_book_by_isbn (books lent) ''ISBN1'' = Some (book1\<lparr>is_available := False\<rparr>) \<and>
   \<not> is_available (book1\<lparr>is_available := False\<rparr>) \<and>
   checkout_book clock3 ''U2'' ''ISBN1'' lent = (Some (book_not_available ''ISBN1''), lent) \<and>
   fst (checkout_book clock3 ''U2'' ''ISBN1'' lent) \<noteq> None \<and>
   snd (checkout_book clock3 ''U2'' ''ISBN1'' lent) = lent"
  using checkout_book_failure [where s = lent and uid = "''U3''" and isbn = "''ISBN1''" and now = clock3]
    checkout_book_failure [where s = lent and uid = "''U2''" and isbn = "''ISBN3''" and now = clock3]
    checkout_book_failure [where s = lent and uid = "''U2''" and isbn = "''ISBN1''" and now = clock3
      and b = "book1\<lparr>is_available := False\<rparr>"]
    find_lent
  by simp

lemma first_match:
  "\<exists>x \<in> set xs. P x \<Longrightarrow>
   (let i = length (takeWhile (\<lambda>x. \<not> P x) xs) in
      i < length xs \<and> P (xs ! i) \<and> (\<forall>j < i. \<not> P (xs ! j)) \<and> find P xs = Some (xs ! i) \<and>
      update_first P f xs = xs[i := f (xs ! i)])"
proof (induction xs)
  case Nil
  then show ?case by simp
next
  case (Cons x xs)
  show ?case
  proof (cases "P x")
    case True
    then show ?thesis by simp
  next
    case False
    with Cons.prems have "\<exists>x \<in> set xs. P x" by simp
    from Cons.IH [OF this] have ih: "length (takeWhile (\<lambda>x. \<not> P x) xs) < length xs"
      "P (xs ! length (takeWhile (\<lambda>x. \<not> P x) xs))"
      "\<forall>j < length (takeWhile (\<lambda>x. \<not> P x) xs). \<not> P (xs ! j)"
      "find P xs = Some (xs ! length (takeWhile (\<lambda>x. \<not> P x) xs))"
      "update_first P f xs = xs[length (takeWhile (\<lambda>x. \<not> P x) xs) := f (xs ! length (takeWhile (\<lambda>x. \<not> P x) xs))]"
      by (simp_all add: Let_def)
    have "\<forall>j < Suc (length (takeWhile (\<lambda>x. \<not> P x) xs)). \<not> P ((x # xs) ! j)"
    proof (intro allI impI)
      fix j assume "j < Suc (length (takeWhile (\<lambda>x. \<not> P x) xs))"
      then show "\<not> P ((x # xs) ! j)" using False ih(3) by (cases j) simp_all
    qed
    with False ih show ?thesis by (simp add: Let_def)
  qed
qed

section \<open>Return\<close>

text \<open>
  Claim C5. When the user and the book resolve and some ledger entry matches
  \<open>(uid, isbn)\<close> with its return date unset, \<^verbatim>\<open>return_book\<close> returns normally. The
  entry it closes is the first such entry in ledger order, at index \<open>i\<close>: no earlier
  entry matches, and the new ledger is the old one with the return date of entry \<open>i\<close>
  set to \<open>now\<close>. The book is available again, and the user's list is the old list
  with the first occurrence of the ISBN removed, so that a list without duplicates no
  longer holds it.
\<close>

theorem return_book_success:
  assumes "get_user_by_id (users s) uid = Some u"
    and "get_book_by_isbn (books s) isbn = Some b"
    and "filter (active uid isbn) (checkouts s) \<noteq> []"
  shows "let s' = snd (return_book now uid isbn s);
             i = length (takeWhile (\<lambda>c. \<not> active uid isbn c) (checkouts s)) in
    fst (return_book now uid isbn s) = None \<and>
    i < length (checkouts s) \<and> active uid isbn (checkouts s ! i) \<and>
    (\<forall>j < i. \<not> active uid isbn (checkouts s ! j)) \<and>
    checkouts s' = (checkouts s)[i := (checkouts s ! i)\<lparr>return_date := Some now\<rparr>] \<and>
    get_book_by_isbn (books s') isbn = Some (b\<lparr>is_available := True\<rparr>) \<and>
    get_user_by_id (users s') uid = Some (User_return_item u isbn) \<and>
    borrowed_items (User_return_item u isbn) = remove1 isbn (borrowed_items u) \<and>
    (distinct (borrowed_items u) \<longrightarrow> isbn \<notin> set (borrowed_items (User_return_item u isbn))) \<and>
    checkouts_json s' = map Checkout_to_dict (checkouts s') \<and>
    books_json s' = map Book_to_dict (books s') \<and>
    users_json s' = map User_to_dict (users s')"
proof -
  let ?i = "length (takeWhile (\<lambda>c. \<not> active uid isbn c) (checkouts s))"
  from assms(3) have ex: "\<exists>c \<in> set (checkouts s). active uid isbn c"
    by (simp add: filter_empty_conv)
  from first_match [OF ex, of "Checkout_return_item now"]
  have fm: "?i < length (checkouts s)" "active uid isbn (checkouts s ! ?i)"
    "\<forall>j < ?i. \<not> active uid isbn (checkouts s ! j)"
    "find (active uid isbn) (checkouts s) = Some (checkouts s ! ?i)"
    "update_first (active uid isbn) (Checkout_return_item now) (checkouts s) =
       (checkouts s)[?i := Checkout_return_item now (checkouts s ! ?i)]"
    by (simp_all add: Let_def)
  have b': "find (\<lambda>b. item_id b = isbn)
      (update_first (\<lambda>b. item_id b = isbn) (\<lambda>b. b\<lparr>is_available := True\<rparr>) (books s)) =
      Some (b\<lparr>is_available := True\<rparr>)"
    using assms(2) by (simp add: find_update_first get_book_by_isbn_def)
  have u': "find (\<lambda>u. user_id u = uid)
      (update_first (\<lambda>u. user_id u = uid) (\<lambda>u. User_return_item u isbn) (users s)) =
      Some (User_return_item u isbn)"
    using assms(1) by (simp add: find_update_first get_user_by_id_def User_return_item_def)
  have r: "borrowed_items (User_return_item u isbn) = remove1 isbn (borrowed_items u)"
    by (simp add: User_return_item_def remove1_idem)
  show ?thesis
    unfolding return_book_ok [OF assms(1,2) fm(4)] Let_def
    using fm(1,2,3) b' u' r
    by (simp add: fm(5) get_book_by_isbn_def get_user_by_id_def Checkout_return_item_def)
qed

lemma find_doubled:
  "get_user_by_id (users doubled) ''U1'' = Some (user1\<lparr>borrowed_items := [''ISBN1'']\<rparr>)"
  "get_book_by_isbn (books doubled) ''ISBN1'' = Some book1"
  "filter (active ''U1'' ''ISBN1'') (checkouts doubled) \<noteq> []"
  "takeWhile (\<lambda>c. \<not> active ''U1'' ''ISBN1'' c) (checkouts doubled) = []"
  by (simp_all add: get_user_by_id_def get_book_by_isbn_def doubled_def user1_def book1_def
      active_def loan1_def)

theorem return_book_success_witness:
  "get_user_by_id (users doubled) ''U1'' = Some (user1\<lparr>borrowed_items := [''ISBN1'']\<rparr>) \<and>
   get_book_by_isbn (books doubled) ''ISBN1'' = Some book1 \<and>
   filter (active ''U1'' ''ISBN1'') (checkouts doubled) \<noteq> [] \<and>
   distinct (borrowed_items (user1\<lparr>borrowed_items := [''ISBN1'']\<rparr>)) \<and>
   fst (return_book clock3 ''U1'' ''ISBN1'' doubled) = None \<and>
   checkouts (snd (return_book clock3 ''U1'' ''ISBN1'' doubled)) = [loan1_closed, loan1] \<and>
   get_book_by_isbn (books (snd (return_book clock3 ''U1'' ''ISBN1'' doubled))) ''ISBN1'' =
     Some book1 \<and>
   get_user_by_id (users (snd (return_book clock3 ''U1'' ''ISBN1'' doubled))) ''U1'' = Some user1 \<and>
   ''ISBN1'' \<notin> set (borrowed_items user1)"
  using return_book_success [OF find_doubled(1,2,3), of clock3] find_doubled
  by (simp add: Let_def doubled_def loan1_closed_def User_return_item_def user1_def book1_def)

lemma filter_update_first:
  "(\<And>x. \<not> P (f x)) \<Longrightarrow> length (filter P (update_first P f xs)) = length (filter P xs) - 1"
  by (induction xs) simp_all

lemma not_active_returned: "\<not> active uid isbn (Checkout_return_item now c)"
  by (simp add: active_def Checkout_return_item_def)

lemma return_book_none_active:
  assumes "get_user_by_id (users s) uid \<noteq> None" "get_book_by_isbn (books s) isbn \<noteq> None"
    "filter (active uid isbn) (checkouts s) = []"
  shows "return_book now uid isbn s = (Some (no_active_checkout uid isbn), s)"
proof -
  from assms(3) have "find (active uid isbn) (checkouts s) = None"
    by (simp add: find_None_no_match filter_empty_conv)
  with assms(1,2) show ?thesis
    by (auto simp add: return_book_def)
qed

text \<open>
  Claim C6, as amended. When the user and the book resolve and no ledger entry matches
  \<open>(uid, isbn)\<close> with its return date unset, \<^verbatim>\<open>return_book\<close> raises the
  no-active-checkout error and leaves the state as it was. When exactly one entry
  matches, the return succeeds and a second return of the same pair right after it
  raises that error and changes nothing.
\<close>

theorem return_book_no_active_loan:
  "(get_user_by_id (users s) uid \<noteq> None \<and> get_book_by_isbn (books s) isbn \<noteq> None \<and>
    filter (active uid isbn) (checkouts s) = [] \<longrightarrow>
      return_book now uid isbn s = (Some (no_active_checkout uid isbn), s)) \<and>
   (get_user_by_id (users s) uid \<noteq> None \<and> get_book_by_isbn (books s) isbn \<noteq> None \<and>
    length (filter (active uid isbn) (checkouts s)) = 1 \<longrightarrow>
      fst (return_book now uid isbn s) = None \<and>
      return_book now' uid isbn (snd (return_book now uid isbn s)) =
        (Some (no_active_checkout uid isbn), snd (return_book now uid isbn s)))"
proof (intro conjI impI)
  assume "get_user_by_id (users s) uid \<noteq> None \<and> get_book_by_isbn (books s) isbn \<noteq> None \<and>
    filter (active uid isbn) (checkouts s) = []"
  then show "return_book now uid isbn s = (Some (no_active_checkout uid isbn), s)"
    by (simp add: return_book_none_active)
next
  assume a: "get_user_by_id (users s) uid \<noteq> None \<and> get_book_by_isbn (books s) isbn \<noteq> None \<and>
    length (filter (active uid isbn) (checkouts s)) = 1"
  then obtain u b where u: "get_user_by_id (users s) uid = Some u"
    and b: "get_book_by_isbn (books s) isbn = Some b"
    by auto
  from a have "filter (active uid isbn) (checkouts s) \<noteq> []" by auto
  then have ex: "\<exists>c \<in> set (checkouts s). active uid isbn c"
    by (simp add: filter_empty_conv)
  from find_Some_first [OF ex] obtain c where c: "find (active uid isbn) (checkouts s) = Some c" ..
  let ?s' = "snd (return_book now uid isbn s)"
  have cs': "checkouts ?s' = update_first (active uid isbn) (Checkout_return_item now) (checkouts s)"
    and bs': "books ?s' = update_first (\<lambda>b. item_id b = isbn) (\<lambda>b. b\<lparr>is_available := True\<rparr>) (books s)"
    and us': "users ?s' = update_first (\<lambda>u. user_id u = uid) (\<lambda>u. User_return_item u isbn) (users s)"
    by (simp_all add: return_book_ok [OF u b c])
  have "length (filter (active uid isbn) (checkouts ?s')) = 0"
    using a by (simp add: cs' filter_update_first not_active_returned)
  then have none: "filter (active uid isbn) (checkouts ?s') = []"
    by simp
  have u': "get_user_by_id (users ?s') uid \<noteq> None"
    using u by (simp add: us' get_user_by_id_def find_update_first User_return_item_def)
  have b': "get_book_by_isbn (books ?s') isbn \<noteq> None"
    using b by (simp add: bs' get_book_by_isbn_def find_update_first)
  show "fst (return_book now uid isbn s) = None"
    by (simp add: return_book_ok [OF u b c])
  show "return_book now' uid isbn ?s' = (Some (no_active_checkout uid isbn), ?s')"
    using u' b' none by (rule return_book_none_active)
qed

theorem return_book_no_active_loan_witness:
  "get_user_by_id (users lent) ''U2'' \<noteq> None \<and> get_book_by_isbn (books lent) ''ISBN1'' \<noteq> None \<and>
   filter (active ''U2'' ''ISBN1'') (checkouts lent) = [] \<and>
   return_book clock3 ''U2'' ''ISBN1'' lent = (Some (no_active_checkout ''U2'' ''ISBN1''), lent) \<and>
   get_user_by_id (users lent) ''U1'' \<noteq> None \<and>
   length (filter (active ''U1'' ''ISBN1'') (checkouts lent)) = 1 \<and>
   fst (return_book clock3 ''U1'' ''ISBN1'' lent) = None \<and>
   fst (return_book clock3 ''U1'' ''ISBN1'' (snd (return_book clock3 ''U1'' ''ISBN1'' lent))) =
     Some (no_active_checkout ''U1'' ''ISBN1'')"
  using return_book_no_active_loan [where s = lent and uid = "''U2''" and isbn = "''ISBN1''"
      and now = clock3 and now' = clock3]
    return_book_no_active_loan [where s = lent and uid = "''U1''" and isbn = "''ISBN1''"
      and now = clock3 and now' = clock3]
    find_lent
  by (simp add: lent_def active_def loan1_def)

lemma return_doubled:
  "return_book clock3 ''U1'' ''ISBN1'' doubled =
    (None, \<lparr>checkouts = [loan1_closed, loan1], books = [book1], users = [user1],
            checkouts_json = [Checkout_to_dict loan1_closed, Checkout_to_dict loan1],
            books_json = [Book_to_dict book1], users_json = [User_to_dict user1]\<rparr>)"
  by (simp add: return_book_def get_user_by_id_def get_book_by_isbn_def doubled_def active_def
      loan1_def loan1_closed_def user1_def book1_def Checkout_return_item_def User_return_item_def
      save_checkouts_def save_books_def save_users_def Let_def)

text \<open>
  Counterexample to claim C6 as worded: the second return need not fail. In \<open>doubled\<close> two open entries match the pair, the
  first return closes the first of them and the second return succeeds on the other.
\<close>

theorem second_return_counterexample:
  "get_user_by_id (users doubled) ''U1'' \<noteq> None \<and>
   get_book_by_isbn (books doubled) ''ISBN1'' \<noteq> None \<and>
   fst (return_book clock3 ''U1'' ''ISBN1'' doubled) = None \<and>
   fst (return_book clock3 ''U1'' ''ISBN1'' (snd (return_book clock3 ''U1'' ''ISBN1'' doubled)))
     \<noteq> Some (no_active_checkout ''U1'' ''ISBN1'')"
  by (simp add: return_doubled find_doubled)
    (simp add: return_book_def get_user_by_id_def get_book_by_isbn_def active_def
      loan1_def loan1_closed_def user1_def book1_def Let_def)

section \<open>The ledger is append-only\<close>

lemma list_all2_update_first:
  "(\<And>x. R x x) \<Longrightarrow> (\<And>x. P x \<Longrightarrow> R x (f x)) \<Longrightarrow> list_all2 R xs (update_first P f xs)"
  by (induction xs) (simp_all add: list_all2_refl)

lemma ledger_kept_append: "ledger_kept cs (cs @ [c])"
  by (simp add: ledger_kept_def same_loan_def list_all2_refl)

lemma ledger_kept_refl: "ledger_kept cs cs"
  by (simp add: ledger_kept_def same_loan_def list_all2_refl)

lemma ledger_kept_return:
  "ledger_kept cs (update_first (active uid isbn) (Checkout_return_item now) cs)"
  by (simp add: ledger_kept_def length_update_first list_all2_update_first same_loan_def
      Checkout_return_item_def)

lemma others_unchanged_refl: "others_unchanged uid isbn s s"
  by (simp add: others_unchanged_def list_all2_refl)

lemma others_unchanged_update:
  assumes "books s' = update_first (\<lambda>b. item_id b = isbn) f (books s)"
    and "users s' = update_first (\<lambda>u. user_id u = uid) g (users s)"
  shows "others_unchanged uid isbn s s'"
  unfolding others_unchanged_def assms
  by (simp add: list_all2_update_first)

text \<open>
  Claim C7. Every call of \<^verbatim>\<open>checkout_book\<close> leaves the ledger as it is or appends
  one entry; every call of \<^verbatim>\<open>return_book\<close> leaves it as it is or sets the return
  date of one entry that had none. Whether the call succeeds or raises, no entry is
  removed and no entry's user id, item id, checkout date or due date changes
  (\<open>ledger_kept\<close>), and every book with another ISBN and every user with another id
  is unchanged (\<open>others_unchanged\<close>).
\<close>

theorem ledger_append_only_frame:
  "(let s' = snd (checkout_book now uid isbn s) in
      (checkouts s' = checkouts s \<or> (\<exists>c. checkouts s' = checkouts s @ [c])) \<and>
      ledger_kept (checkouts s) (checkouts s') \<and> others_unchanged uid isbn s s') \<and>
   (let s' = snd (return_book now uid isbn s) in
      (checkouts s' = checkouts s \<or>
       (\<exists>i < length (checkouts s). return_date (checkouts s ! i) = None \<and>
          checkouts s' = (checkouts s)[i := (checkouts s ! i)\<lparr>return_date := Some now\<rparr>])) \<and>
      ledger_kept (checkouts s) (checkouts s') \<and> others_unchanged uid isbn s s')"
proof -
  have co: "let s' = snd (checkout_book now uid isbn s) in
      (checkouts s' = checkouts s \<or> (\<exists>c. checkouts s' = checkouts s @ [c])) \<and>
      ledger_kept (checkouts s) (checkouts s') \<and> others_unchanged uid isbn s s'"
  proof (cases "fst (checkout_book now uid isbn s)")
    case (Some e)
    then have "snd (checkout_book now uid isbn s) = s" by (rule checkout_book_fail)
    then show ?thesis
      by (simp add: Let_def ledger_kept_refl others_unchanged_refl)
  next
    case None
    from checkout_book_None [OF this] obtain u b due where
      h: "get_user_by_id (users s) uid = Some u" "get_book_by_isbn (books s) isbn = Some b"
        "is_available b" "add_days 14 now = Some due"
      by blast
    show ?thesis
      unfolding checkout_book_ok [OF h] Let_def
      by (simp add: ledger_kept_append others_unchanged_update)
  qed
  have re: "let s' = snd (return_book now uid isbn s) in
      (checkouts s' = checkouts s \<or>
       (\<exists>i < length (checkouts s). return_date (checkouts s ! i) = None \<and>
          checkouts s' = (checkouts s)[i := (checkouts s ! i)\<lparr>return_date := Some now\<rparr>])) \<and>
      ledger_kept (checkouts s) (checkouts s') \<and> others_unchanged uid isbn s s'"
  proof (cases "fst (return_book now uid isbn s)")
    case (Some e)
    then have "snd (return_book now uid isbn s) = s" by (rule return_book_fail)
    then show ?thesis
      by (simp add: Let_def ledger_kept_refl others_unchanged_refl)
  next
    case None
    from return_book_None [OF this] obtain u b c where
      h: "get_user_by_id (users s) uid = Some u" "get_book_by_isbn (books s) isbn = Some b"
        "find (active uid isbn) (checkouts s) = Some c"
      by blast
    from update_first_index [OF h(3), of "Checkout_return_item now"] obtain i where
      i: "i < length (checkouts s)" "checkouts s ! i = c" "active uid isbn c"
        "update_first (active uid isbn) (Checkout_return_item now) (checkouts s) =
           (checkouts s)[i := Checkout_return_item now c]"
      by blast
    have "update_first (active uid isbn) (Checkout_return_item now) (checkouts s) =
        (checkouts s)[i := (checkouts s ! i)\<lparr>return_date := Some now\<rparr>]"
      using i(2,4) by (simp add: Checkout_return_item_def)
    moreover have "return_date (checkouts s ! i) = None"
      using i(2,3) by (simp add: active_def)
    ultimately have ex: "\<exists>i < length (checkouts s). return_date (checkouts s ! i) = None \<and>
        update_first (active uid isbn) (Checkout_return_item now) (checkouts s) =
        (checkouts s)[i := (checkouts s ! i)\<lparr>return_date := Some now\<rparr>]"
      using i(1) by blast
    have k: "ledger_kept (checkouts s)
        (update_first (active uid isbn) (Checkout_return_item now) (checkouts s))"
      by (rule ledger_kept_return)
    show ?thesis
      unfolding return_book_ok [OF h] Let_def
      using ex k by (simp add: others_unchanged_update)
  qed
  from co re show ?thesis by simp
qed

lemma checkout_fresh: "checkout_book clock1 ''U1'' ''ISBN1'' fresh = (None, lent)"
  unfolding checkout_book_ok [OF find_fresh add_days_clock1]
  by (simp add: fresh_def lent_def loan1_def user1_def user2_def book1_def book2_def
      borrow_item_def)

lemma return_lent:
  "return_book clock3 ''U1'' ''ISBN1'' lent =
    (None, \<lparr>checkouts = [loan1_closed], books = [book1, book2], users = [user1, user2],
            checkouts_json = [Checkout_to_dict loan1_closed],
            books_json = [Book_to_dict book1, Book_to_dict book2],
            users_json = [User_to_dict user1, User_to_dict user2]\<rparr>)"
  by (simp add: return_book_def get_user_by_id_def get_book_by_isbn_def lent_def active_def
      loan1_def loan1_closed_def user1_def user2_def book1_def book2_def
      Checkout_return_item_def User_return_item_def
      save_checkouts_def save_books_def save_users_def Let_def)

theorem ledger_append_only_frame_witness:
  "checkouts (snd (checkout_book clock1 ''U1'' ''ISBN1'' fresh)) = checkouts fresh @ [loan1] \<and>
   others_unchanged ''U1'' ''ISBN1'' fresh (snd (checkout_book clock1 ''U1'' ''ISBN1'' fresh)) \<and>
   item_id book2 \<noteq> ''ISBN1'' \<and>
   books (snd (checkout_book clock1 ''U1'' ''ISBN1'' fresh)) ! 1 = books fresh ! 1 \<and>
   user_id user2 \<noteq> ''U1'' \<and>
   users (snd (checkout_book clock1 ''U1'' ''ISBN1'' fresh)) ! 1 = users fresh ! 1 \<and>
   return_date (checkouts lent ! 0) = None \<and>
   checkouts (snd (return_book clock3 ''U1'' ''ISBN1'' lent)) =
     (checkouts lent)[0 := (checkouts lent ! 0)\<lparr>return_date := Some clock3\<rparr>] \<and>
   ledger_kept (checkouts lent) (checkouts (snd (return_book clock3 ''U1'' ''ISBN1'' lent))) \<and>
   same_loan loan1 loan1_closed \<and>
   others_unchanged ''U1'' ''ISBN1'' lent (snd (return_book clock3 ''U1'' ''ISBN1'' lent)) \<and>
   books (snd (return_book clock3 ''U1'' ''ISBN1'' lent)) ! 1 = books lent ! 1 \<and>
   users (snd (return_book clock3 ''U1'' ''ISBN1'' lent)) ! 1 = users lent ! 1 \<and>
   checkouts (snd (return_book clock3 ''U2'' ''ISBN1'' lent)) = checkouts lent"
  using ledger_append_only_frame [of clock1 "''U1''" "''ISBN1''" fresh]
    ledger_append_only_frame [of clock3 "''U1''" "''ISBN1''" lent]
    ledger_append_only_frame [of clock3 "''U2''" "''ISBN1''" lent]
  by (simp add: checkout_fresh return_lent Let_def)
    (simp add: fresh_def lent_def loan1_closed_def loan1_def same_loan_def book2_def user2_def
      return_book_def get_user_by_id_def get_book_by_isbn_def active_def user1_def book1_def)

section \<open>Invariants of the three collections\<close>

subsection \<open>Availability and open loans\<close>

lemma open_loans_append:
  "open_loans (cs @ [c]) i =
     open_loans cs i @ (if co_item_id c = i \<and> return_date c = None then [c] else [])"
  by (simp add: open_loans_def)

lemma open_loans_return_other:
  "iid \<noteq> isbn \<Longrightarrow>
   open_loans (update_first (active uid isbn) (Checkout_return_item now) cs) iid = open_loans cs iid"
  by (induction cs) (auto simp add: open_loans_def active_def Checkout_return_item_def)

lemma open_loans_return_same:
  "find (active uid isbn) cs = Some c \<Longrightarrow>
   Suc (length (open_loans (update_first (active uid isbn) (Checkout_return_item now) cs) isbn)) =
   length (open_loans cs isbn)"
  by (induction cs) (auto simp add: open_loans_def active_def Checkout_return_item_def split: if_splits)

lemma find_SomeD: "find P xs = Some x \<Longrightarrow> x \<in> set xs \<and> P x"
  by (induction xs) (auto split: if_splits)

lemma distinct_key_unique:
  "distinct (map k xs) \<Longrightarrow> x \<in> set xs \<Longrightarrow> y \<in> set xs \<Longrightarrow> k x = k y \<Longrightarrow> x = y"
  by (simp add: distinct_map inj_on_def)

lemma availability_inv_checkout:
  assumes inv: "availability_inv s"
  shows "availability_inv (snd (checkout_book now uid isbn s))"
proof (cases "fst (checkout_book now uid isbn s)")
  case (Some e)
  then have "snd (checkout_book now uid isbn s) = s" by (rule checkout_book_fail)
  with inv show ?thesis by simp
next
  case None
  from checkout_book_None [OF this] obtain u b due where
    h: "get_user_by_id (users s) uid = Some u" "get_book_by_isbn (books s) isbn = Some b"
      "is_available b" "add_days 14 now = Some due"
    by blast
  from inv have d: "distinct (map item_id (books s))"
    and a: "\<And>x. x \<in> set (books s) \<Longrightarrow>
      length (open_loans (checkouts s) (item_id x)) = (if is_available x then 0 else 1)"
    by (simp_all add: availability_inv_def)
  from h(2) have b: "b \<in> set (books s)" "item_id b = isbn"
    using find_SomeD [of "\<lambda>b. item_id b = isbn" "books s" b] by (simp_all add: get_book_by_isbn_def)
  let ?c = "\<lparr>co_user_id = uid, co_item_id = isbn, checkout_date = now, due_date = due,
    return_date = None\<rparr>"
  let ?bs = "update_first (\<lambda>b. item_id b = isbn) (\<lambda>b. b\<lparr>is_available := False\<rparr>) (books s)"
  have bs: "?bs = map (\<lambda>x. if item_id x = isbn then x\<lparr>is_available := False\<rparr> else x) (books s)"
    using d by (rule update_first_distinct_key)
  have d': "distinct (map item_id ?bs)"
    using d by (simp add: map_update_first)
  have a': "length (open_loans (checkouts s @ [?c]) (item_id y)) = (if is_available y then 0 else 1)"
    if y: "y \<in> set ?bs" for y
  proof -
    from y obtain x where x: "x \<in> set (books s)"
      "y = (if item_id x = isbn then x\<lparr>is_available := False\<rparr> else x)"
      unfolding bs by auto
    show ?thesis
    proof (cases "item_id x = isbn")
      case True
      with x(1) b d have "x = b" by (auto dest: distinct_key_unique)
      with a [OF x(1)] h(3) have "length (open_loans (checkouts s) isbn) = 0"
        using b(2) by simp
      with True x(2) show ?thesis by (simp add: open_loans_append)
    next
      case False
      with x(2) a [OF x(1)] show ?thesis by (simp add: open_loans_append)
    qed
  qed
  show ?thesis
    unfolding checkout_book_ok [OF h]
    using d' a' by (simp add: availability_inv_def)
qed

lemma availability_inv_return:
  assumes inv: "availability_inv s"
  shows "availability_inv (snd (return_book now uid isbn s))"
proof (cases "fst (return_book now uid isbn s)")
  case (Some e)
  then have "snd (return_book now uid isbn s) = s" by (rule return_book_fail)
  with inv show ?thesis by simp
next
  case None
  from return_book_None [OF this] obtain u b c where
    h: "get_user_by_id (users s) uid = Some u" "get_book_by_isbn (books s) isbn = Some b"
      "find (active uid isbn) (checkouts s) = Some c"
    by blast
  from inv have d: "distinct (map item_id (books s))"
    and a: "\<And>x. x \<in> set (books s) \<Longrightarrow>
      length (open_loans (checkouts s) (item_id x)) = (if is_available x then 0 else 1)"
    by (simp_all add: availability_inv_def)
  from h(2) have b: "b \<in> set (books s)" "item_id b = isbn"
    using find_SomeD [of "\<lambda>b. item_id b = isbn" "books s" b] by (simp_all add: get_book_by_isbn_def)
  let ?cs = "update_first (active uid isbn) (Checkout_return_item now) (checkouts s)"
  let ?bs = "update_first (\<lambda>b. item_id b = isbn) (\<lambda>b. b\<lparr>is_available := True\<rparr>) (books s)"
  have bs: "?bs = map (\<lambda>x. if item_id x = isbn then x\<lparr>is_available := True\<rparr> else x) (books s)"
    using d by (rule update_first_distinct_key)
  have d': "distinct (map item_id ?bs)"
    using d by (simp add: map_update_first)
  from open_loans_return_same [OF h(3), of now]
  have suc: "Suc (length (open_loans ?cs isbn)) = length (open_loans (checkouts s) isbn)" .
  with a [OF b(1)] b(2) have zero: "length (open_loans ?cs isbn) = 0"
    by (simp split: if_splits)
  have a': "length (open_loans ?cs (item_id y)) = (if is_available y then 0 else 1)"
    if y: "y \<in> set ?bs" for y
  proof -
    from y obtain x where x: "x \<in> set (books s)"
      "y = (if item_id x = isbn then x\<lparr>is_available := True\<rparr> else x)"
      unfolding bs by auto
    show ?thesis
    proof (cases "item_id x = isbn")
      case True
      with x(2) zero show ?thesis by simp
    next
      case False
      with x(2) a [OF x(1)] show ?thesis by (simp add: open_loans_return_other)
    qed
  qed
  show ?thesis
    unfolding return_book_ok [OF h]
    using d' a' by (simp add: availability_inv_def)
qed

lemma availability_inv_run: "availability_inv s \<Longrightarrow> availability_inv (run rs s)"
proof (induction rs arbitrary: s)
  case Nil
  then show ?case by simp
next
  case (Cons r rs)
  from Cons.prems have "availability_inv (serve r s)"
    by (cases r) (simp_all add: availability_inv_checkout availability_inv_return)
  then show ?case by (simp add: Cons.IH)
qed

lemma availability_inv_mutual_exclusion: "availability_inv s \<Longrightarrow> mutual_exclusion s"
  by (simp add: availability_inv_def mutual_exclusion_def)

text \<open>
  Claim C1, as amended. In a state where ISBNs are unique, every unavailable book has
  exactly one open loan and every available book has none (\<open>availability_inv\<close>), a
  book is unavailable iff it has exactly one open loan; \<^verbatim>\<open>checkout_book\<close> and
  \<^verbatim>\<open>return_book\<close>, whether they succeed or raise, lead to a state of the same kind;
  and so does every sequence of checkout and return requests.
\<close>

theorem mutual_exclusion_preserved:
  assumes "availability_inv s"
  shows "mutual_exclusion s \<and>
    availability_inv (snd (checkout_book now uid isbn s)) \<and>
    mutual_exclusion (snd (checkout_book now uid isbn s)) \<and>
    availability_inv (snd (return_book now uid isbn s)) \<and>
    mutual_exclusion (snd (return_book now uid isbn s)) \<and>
    availability_inv (run rs s) \<and> mutual_exclusion (run rs s)"
  using assms
  by (simp add: availability_inv_checkout availability_inv_return availability_inv_run
      availability_inv_mutual_exclusion)

lemma availability_inv_fresh: "availability_inv fresh"
  by (simp add: availability_inv_def fresh_def open_loans_def book1_def book2_def)

lemma run_fresh:
  "run [Checkout_req clock1 ''U1'' ''ISBN1'', Return_req clock3 ''U2'' ''ISBN1''] fresh = lent"
  by (simp add: checkout_fresh)
    (simp add: return_book_def get_user_by_id_def get_book_by_isbn_def lent_def active_def
      loan1_def user1_def user2_def book1_def book2_def)

theorem mutual_exclusion_preserved_witness:
  "availability_inv fresh \<and>
   run [Checkout_req clock1 ''U1'' ''ISBN1'', Return_req clock3 ''U2'' ''ISBN1''] fresh = lent \<and>
   availability_inv lent \<and> mutual_exclusion lent \<and>
   is_available (books lent ! 0) = False \<and>
   length (open_loans (checkouts lent) (item_id (books lent ! 0))) = 1 \<and>
   is_available (books lent ! 1) = True \<and>
   length (open_loans (checkouts lent) (item_id (books lent ! 1))) = 0"
proof -
  let ?rs = "[Checkout_req clock1 ''U1'' ''ISBN1'', Return_req clock3 ''U2'' ''ISBN1'']"
  from mutual_exclusion_preserved [OF availability_inv_fresh, of clock1 "''U1''" "''ISBN1''" ?rs]
  have "availability_inv (run ?rs fresh) \<and> mutual_exclusion (run ?rs fresh)"
    by blast
  then have inv: "availability_inv lent \<and> mutual_exclusion lent"
    by (simp only: run_fresh)
  have bs: "is_available (books lent ! 0) = False \<and>
      length (open_loans (checkouts lent) (item_id (books lent ! 0))) = 1 \<and>
      is_available (books lent ! 1) = True \<and>
      length (open_loans (checkouts lent) (item_id (books lent ! 1))) = 0"
    by (simp add: lent_def open_loans_def loan1_def book1_def book2_def)
  from availability_inv_fresh run_fresh inv bs show ?thesis
    by blast
qed

lemma checkout_doubled:
  "checkout_book clock1 ''U1'' ''ISBN1'' doubled =
    (None, \<lparr>checkouts = [loan1, loan1, loan1], books = [book1\<lparr>is_available := False\<rparr>],
            users = [user1\<lparr>borrowed_items := [''ISBN1'']\<rparr>],
            checkouts_json = [Checkout_to_dict loan1, Checkout_to_dict loan1, Checkout_to_dict loan1],
            books_json = [Book_to_dict (book1\<lparr>is_available := False\<rparr>)],
            users_json = [User_to_dict (user1\<lparr>borrowed_items := [''ISBN1'']\<rparr>)]\<rparr>)"
proof -
  have "is_available book1" by (simp add: book1_def)
  from checkout_book_ok [OF find_doubled(1,2) this add_days_clock1] show ?thesis
    by (simp add: doubled_def loan1_def user1_def book1_def borrow_item_def)
qed

text \<open>
  Counterexample to claim C1 as worded: mutual exclusion is not preserved on its own. In \<open>doubled\<close> the book is
  available and has two open loans, which the wording allows (two is not exactly
  one); the checkout succeeds, on the availability flag alone, and leaves the book
  unavailable with three open loans.
\<close>

theorem mutual_exclusion_counterexample:
  "mutual_exclusion doubled \<and>
   fst (checkout_book clock1 ''U1'' ''ISBN1'' doubled) = None \<and>
   \<not> mutual_exclusion (snd (checkout_book clock1 ''U1'' ''ISBN1'' doubled))"
  by (simp add: checkout_doubled)
    (simp add: mutual_exclusion_def doubled_def open_loans_def loan1_def book1_def)

subsection \<open>Held items and open loans\<close>

lemma open_items_append:
  "open_items (cs @ [c]) u =
     open_items cs u @ (if co_user_id c = u \<and> return_date c = None then [co_item_id c] else [])"
  by (simp add: open_items_def)

lemma open_items_return_other:
  "u \<noteq> uid \<Longrightarrow>
   open_items (update_first (active uid isbn) (Checkout_return_item now) cs) u = open_items cs u"
  by (induction cs) (auto simp add: open_items_def active_def Checkout_return_item_def)

lemma open_items_return_rest:
  "set (open_items (update_first (active uid isbn) (Checkout_return_item now) cs) u) - {isbn} =
   set (open_items cs u) - {isbn}"
  by (induction cs) (auto simp add: open_items_def active_def Checkout_return_item_def)

lemma open_items_open_loans:
  "open_loans cs isbn = [] \<Longrightarrow> isbn \<notin> set (open_items cs u)"
  by (auto simp add: open_loans_def open_items_def filter_empty_conv)

lemma open_items_return_same:
  assumes "open_loans (update_first (active uid isbn) (Checkout_return_item now) cs) isbn = []"
  shows "set (open_items (update_first (active uid isbn) (Checkout_return_item now) cs) u) =
    set (open_items cs u) - {isbn}"
  using open_items_open_loans [OF assms, of u] open_items_return_rest [of uid isbn now cs u]
  by blast

lemma set_consistency_checkout:
  assumes du: "distinct (map user_id (users s))" and sc: "set_consistency s"
  shows "set_consistency (snd (checkout_book now uid isbn s))"
proof (cases "fst (checkout_book now uid isbn s)")
  case (Some e)
  then have "snd (checkout_book now uid isbn s) = s" by (rule checkout_book_fail)
  with sc show ?thesis by simp
next
  case None
  from checkout_book_None [OF this] obtain u b due where
    h: "get_user_by_id (users s) uid = Some u" "get_book_by_isbn (books s) isbn = Some b"
      "is_available b" "add_days 14 now = Some due"
    by blast
  from sc have a: "\<And>x. x \<in> set (users s) \<Longrightarrow> distinct (borrowed_items x) \<and>
      set (borrowed_items x) = set (open_items (checkouts s) (user_id x))"
    by (simp add: set_consistency_def)
  let ?c = "\<lparr>co_user_id = uid, co_item_id = isbn, checkout_date = now, due_date = due,
    return_date = None\<rparr>"
  let ?us = "update_first (\<lambda>u. user_id u = uid) (\<lambda>u. borrow_item u isbn) (users s)"
  have us: "?us = map (\<lambda>x. if user_id x = uid then borrow_item x isbn else x) (users s)"
    using du by (rule update_first_distinct_key)
  have a': "distinct (borrowed_items y) \<and>
      set (borrowed_items y) = set (open_items (checkouts s @ [?c]) (user_id y))"
    if y: "y \<in> set ?us" for y
  proof -
    from y obtain x where x: "x \<in> set (users s)"
      "y = (if user_id x = uid then borrow_item x isbn else x)"
      unfolding us by auto
    from a [OF x(1)] x(2) show ?thesis
      by (auto simp add: open_items_append borrow_item_def)
  qed
  show ?thesis
    unfolding checkout_book_ok [OF h]
    using a' by (simp add: set_consistency_def)
qed

lemma set_consistency_return:
  assumes inv: "availability_inv s" and du: "distinct (map user_id (users s))"
    and sc: "set_consistency s"
  shows "set_consistency (snd (return_book now uid isbn s))"
proof (cases "fst (return_book now uid isbn s)")
  case (Some e)
  then have "snd (return_book now uid isbn s) = s" by (rule return_book_fail)
  with sc show ?thesis by simp
next
  case None
  from return_book_None [OF this] obtain u b c where
    h: "get_user_by_id (users s) uid = Some u" "get_book_by_isbn (books s) isbn = Some b"
      "find (active uid isbn) (checkouts s) = Some c"
    by blast
  from sc have a: "\<And>x. x \<in> set (users s) \<Longrightarrow> distinct (borrowed_items x) \<and>
      set (borrowed_items x) = set (open_items (checkouts s) (user_id x))"
    by (simp add: set_consistency_def)
  from inv have ai: "\<And>x. x \<in> set (books s) \<Longrightarrow>
      length (open_loans (checkouts s) (item_id x)) = (if is_available x then 0 else 1)"
    by (simp add: availability_inv_def)
  from h(2) have b: "b \<in> set (books s)" "item_id b = isbn"
    using find_SomeD [of "\<lambda>b. item_id b = isbn" "books s" b] by (simp_all add: get_book_by_isbn_def)
  let ?cs = "update_first (active uid isbn) (Checkout_return_item now) (checkouts s)"
  let ?us = "update_first (\<lambda>u. user_id u = uid) (\<lambda>u. User_return_item u isbn) (users s)"
  have us: "?us = map (\<lambda>x. if user_id x = uid then User_return_item x isbn else x) (users s)"
    using du by (rule update_first_distinct_key)
  from open_loans_return_same [OF h(3), of now]
  have "Suc (length (open_loans ?cs isbn)) = length (open_loans (checkouts s) isbn)" .
  with ai [OF b(1)] b(2) have zero: "open_loans ?cs isbn = []"
    by (simp split: if_splits)
  have a': "distinct (borrowed_items y) \<and>
      set (borrowed_items y) = set (open_items ?cs (user_id y))"
    if y: "y \<in> set ?us" for y
  proof -
    from y obtain x where x: "x \<in> set (users s)"
      "y = (if user_id x = uid then User_return_item x isbn else x)"
      unfolding us by auto
    show ?thesis
    proof (cases "user_id x = uid")
      case True
      with x(2) a [OF x(1)] show ?thesis
        by (auto simp add: open_items_return_same [OF zero] User_return_item_def)
    next
      case False
      with x(2) a [OF x(1)] show ?thesis
        by (simp add: open_items_return_other)
    qed
  qed
  show ?thesis
    unfolding return_book_ok [OF h]
    using a' by (simp add: set_consistency_def)
qed

lemma users_ids_checkout:
  "map user_id (users (snd (checkout_book now uid isbn s))) = map user_id (users s)"
proof (cases "fst (checkout_book now uid isbn s)")
  case (Some e)
  then have "snd (checkout_book now uid isbn s) = s" by (rule checkout_book_fail)
  then show ?thesis by simp
next
  case None
  from checkout_book_None [OF this] obtain u b due where
    h: "get_user_by_id (users s) uid = Some u" "get_book_by_isbn (books s) isbn = Some b"
      "is_available b" "add_days 14 now = Some due"
    by blast
  show ?thesis
    unfolding checkout_book_ok [OF h]
    by (simp add: map_update_first borrow_item_def)
qed

lemma users_ids_return:
  "map user_id (users (snd (return_book now uid isbn s))) = map user_id (users s)"
proof (cases "fst (return_book now uid isbn s)")
  case (Some e)
  then have "snd (return_book now uid isbn s) = s" by (rule return_book_fail)
  then show ?thesis by simp
next
  case None
  from return_book_None [OF this] obtain u b c where
    h: "get_user_by_id (users s) uid = Some u" "get_book_by_isbn (books s) isbn = Some b"
      "find (active uid isbn) (checkouts s) = Some c"
    by blast
  show ?thesis
    unfolding return_book_ok [OF h]
    by (simp add: map_update_first User_return_item_def)
qed

lemma library_inv_checkout: "library_inv s \<Longrightarrow> library_inv (snd (checkout_book now uid isbn s))"
  by (simp add: library_inv_def availability_inv_checkout set_consistency_checkout
      users_ids_checkout)

lemma library_inv_return: "library_inv s \<Longrightarrow> library_inv (snd (return_book now uid isbn s))"
  by (simp add: library_inv_def availability_inv_return set_consistency_return
      users_ids_return)

lemma library_inv_run: "library_inv s \<Longrightarrow> library_inv (run rs s)"
proof (induction rs arbitrary: s)
  case Nil
  then show ?case by simp
next
  case (Cons r rs)
  from Cons.prems have "library_inv (serve r s)"
    by (cases r) (simp_all add: library_inv_checkout library_inv_return)
  then show ?case by (simp add: Cons.IH)
qed

text \<open>
  Claim C2, as amended. In a state where user ids and ISBNs are unique, every
  unavailable book has exactly one open loan and every available book none, and every
  user's list is duplicate-free and holds exactly the items of the user's open loans
  (\<open>library_inv\<close>), \<^verbatim>\<open>checkout_book\<close> and \<^verbatim>\<open>return_book\<close>, whether they succeed or
  raise, lead to a state of the same kind, and so does every sequence of requests: set
  consistency holds throughout and no list ever gets a duplicate.
\<close>

theorem set_consistency_preserved:
  assumes "library_inv s"
  shows "set_consistency s \<and>
    library_inv (snd (checkout_book now uid isbn s)) \<and>
    set_consistency (snd (checkout_book now uid isbn s)) \<and>
    library_inv (snd (return_book now uid isbn s)) \<and>
    set_consistency (snd (return_book now uid isbn s)) \<and>
    library_inv (run rs s) \<and> set_consistency (run rs s)"
proof -
  have sc: "set_consistency t" if "library_inv t" for t
    using that by (simp add: library_inv_def)
  from assms show ?thesis
    by (simp add: sc library_inv_checkout library_inv_return library_inv_run)
qed

lemma library_inv_fresh: "library_inv fresh"
  using availability_inv_fresh
  by (simp add: library_inv_def set_consistency_def)
    (simp add: fresh_def open_items_def user1_def user2_def)

theorem set_consistency_preserved_witness:
  "library_inv fresh \<and>
   run [Checkout_req clock1 ''U1'' ''ISBN1'', Return_req clock3 ''U2'' ''ISBN1''] fresh = lent \<and>
   library_inv lent \<and> set_consistency lent \<and>
   borrowed_items (users lent ! 0) = [''ISBN1''] \<and>
   open_items (checkouts lent) (user_id (users lent ! 0)) = [''ISBN1''] \<and>
   borrowed_items (users lent ! 1) = [] \<and>
   open_items (checkouts lent) (user_id (users lent ! 1)) = []"
proof -
  let ?rs = "[Checkout_req clock1 ''U1'' ''ISBN1'', Return_req clock3 ''U2'' ''ISBN1'']"
  from set_consistency_preserved [OF library_inv_fresh, of clock1 "''U1''" "''ISBN1''" ?rs]
  have "library_inv (run ?rs fresh) \<and> set_consistency (run ?rs fresh)"
    by blast
  then have inv: "library_inv lent \<and> set_consistency lent"
    by (simp only: run_fresh)
  have us: "borrowed_items (users lent ! 0) = [''ISBN1''] \<and>
      open_items (checkouts lent) (user_id (users lent ! 0)) = [''ISBN1''] \<and>
      borrowed_items (users lent ! 1) = [] \<and>
      open_items (checkouts lent) (user_id (users lent ! 1)) = []"
    by (simp add: lent_def open_items_def loan1_def user1_def user2_def)
  from library_inv_fresh run_fresh inv us show ?thesis
    by blast
qed

text \<open>
  Counterexample to claim C2 as worded: set consistency is not preserved on its own. In \<open>doubled\<close> the user holds
  \<open>ISBN1\<close> and has two open loans for it; the return closes the first of them and
  removes the ISBN from the list, while the second loan is still open.
\<close>

theorem set_consistency_counterexample:
  "set_consistency doubled \<and>
   fst (return_book clock3 ''U1'' ''ISBN1'' doubled) = None \<and>
   \<not> set_consistency (snd (return_book clock3 ''U1'' ''ISBN1'' doubled))"
  by (simp add: return_doubled)
    (simp add: set_consistency_def doubled_def open_items_def loan1_def loan1_closed_def user1_def)

end
